theory Spec2Isabelle
  imports Complex_Main "HOL-Library.Word" "HOL-Library.Log_Nat"
begin

unbundle bit_operations_syntax

section \<open>JavaScript values and objects\<close>

text \<open>
  The values that flow through the pipeline. Strings are sequences of code units below 256.
  The pipeline does no arithmetic on the values it is given: of a number it only asks
  whether it is truthy and what its string is, so a number is the pair of these two
  answers (\<open>JNum False ''0''\<close> is the number 0, \<open>JNum True ''1e+21''\<close> the number
  \<open>1e21\<close>). \<open>JObj\<close> is a nested object, its properties in the order \<open>Object.entries\<close>
  lists them; \<open>JFun\<close> is a built-in function, by its name.
  A top-level object (a subscriber, a template, a result) is a finite map from the names of
  its own properties to their values. Every object is an ordinary object: its prototype
  is \<open>Object.prototype\<close>, as the language defines it, and it has no conversion to a string
  of its own. Arrays and functions written by the user are not among the values.
\<close>

datatype jsval = JUndefined | JNull | JBool bool | JNum bool string | JStr string
  | JObj "(string \<times> jsval) list" | JFun string

text \<open>A thrown exception, by constructor, with its message.\<close>

datatype js_error = Error string | TypeError string

type_synonym jsobj = "string \<rightharpoonup> jsval"

text \<open>
  \<open>obj.name\<close> for the fixed names the program reads (\<open>email\<close>, \<open>subject\<close>, \<open>status\<close>, ...):
  the own property, \<open>undefined\<close> when there is none. None of these names is a member of
  \<open>Object.prototype\<close>.
\<close>

definition js_get :: "jsobj \<Rightarrow> string \<Rightarrow> jsval" where
  "js_get obj k = (case obj k of None \<Rightarrow> JUndefined | Some v \<Rightarrow> v)"

text \<open>
  \<open>data[key]\<close> for a key that comes from the input: the own property when there is one,
  otherwise the member that the object inherits from \<open>Object.prototype\<close>, otherwise
  \<open>undefined\<close>. The inherited members are the built-in functions below and the accessor
  \<open>__proto__\<close>, which gives \<open>Object.prototype\<close> itself.
\<close>

definition objectPrototypeFunctions :: "string list" where
  "objectPrototypeFunctions =
     [''__defineGetter__'', ''__defineSetter__'', ''hasOwnProperty'', ''__lookupGetter__'',
      ''__lookupSetter__'', ''isPrototypeOf'', ''propertyIsEnumerable'', ''toString'',
      ''valueOf'', ''toLocaleString'']"

definition objectPrototype :: "string \<Rightarrow> jsval" where
  "objectPrototype k =
     (if k = ''constructor'' then JFun ''Object''
      else if k \<in> set objectPrototypeFunctions then JFun k
      else if k = ''__proto__'' then JObj []
      else JUndefined)"

definition dataLookup :: "jsobj \<Rightarrow> string \<Rightarrow> jsval" where
  "dataLookup data k = (case data k of None \<Rightarrow> objectPrototype k | Some v \<Rightarrow> v)"

text \<open>Truthiness, the operator \<open>||\<close> and the conversion \<open>ToString\<close> on these values.\<close>

fun truthy :: "jsval \<Rightarrow> bool" where
  "truthy JUndefined = False"
| "truthy JNull = False"
| "truthy (JBool b) = b"
| "truthy (JNum t s) = t"
| "truthy (JStr s) = (s \<noteq> [])"
| "truthy (JObj kvs) = True"
| "truthy (JFun name) = True"

definition js_or :: "jsval \<Rightarrow> jsval \<Rightarrow> jsval" where
  "js_or a b = (if truthy a then a else b)"

fun toString :: "jsval \<Rightarrow> string" where
  "toString JUndefined = ''undefined''"
| "toString JNull = ''null''"
| "toString (JBool b) = (if b then ''true'' else ''false'')"
| "toString (JNum t s) = s"
| "toString (JStr s) = s"
| "toString (JObj kvs) = ''[object Object]''"
| "toString (JFun name) = ''function '' @ name @ ''() { [native code] }''"

text \<open>
  A count or an index as a value: below \<open>10^21\<close>, where every length and index of an array
  lies, the string of a whole number is its decimal digits.
\<close>

definition digitChar :: "nat \<Rightarrow> char" where
  "digitChar d = ''0123456789'' ! d"

fun showNat :: "nat \<Rightarrow> string" where
  "showNat n = (if n < 10 then [digitChar n] else showNat (n div 10) @ [digitChar (n mod 10)])"

declare showNat.simps [simp del]

definition jsNat :: "nat \<Rightarrow> jsval" where
  "jsNat n = JNum (n \<noteq> 0) (showNat n)"

section \<open>Strings\<close>

text \<open>
  Character classes by code unit. \<open>isWordChar\<close> is the class \<open>\w\<close> of a regular
  expression without the \<open>u\<close> and \<open>i\<close> flags, \<open>[A-Za-z0-9_]\<close>.
\<close>

definition charCode :: "char \<Rightarrow> nat" where
  "charCode c = of_char c"

definition isUpperAZ :: "char \<Rightarrow> bool" where
  "isUpperAZ c = (65 \<le> charCode c \<and> charCode c \<le> 90)"

definition isLowerAZ :: "char \<Rightarrow> bool" where
  "isLowerAZ c = (97 \<le> charCode c \<and> charCode c \<le> 122)"

definition isDigit09 :: "char \<Rightarrow> bool" where
  "isDigit09 c = (48 \<le> charCode c \<and> charCode c \<le> 57)"

definition isAlnum :: "char \<Rightarrow> bool" where
  "isAlnum c = (isLowerAZ c \<or> isUpperAZ c \<or> isDigit09 c)"

definition isWordChar :: "char \<Rightarrow> bool" where
  "isWordChar c = (isAlnum c \<or> c = CHR ''_'')"

text \<open>
  \<open>String.prototype.trim\<close> strips white space and line terminators from both ends; below
  256 these are the code units 9 to 13, 32 and 160.
\<close>

definition isSpace :: "char \<Rightarrow> bool" where
  "isSpace c = ((9 \<le> charCode c \<and> charCode c \<le> 13) \<or> charCode c = 32 \<or> charCode c = 160)"

definition trim :: "string \<Rightarrow> string" where
  "trim s = rev (dropWhile isSpace (rev (dropWhile isSpace s)))"

text \<open>
  \<open>String.prototype.toLowerCase\<close>: below 256 the letters with a lower-case form are
  \<open>A\<close> to \<open>Z\<close> and the code units 192 to 222 except 215, each 32 below its lower-case form.
\<close>

definition lowerChar :: "char \<Rightarrow> char" where
  "lowerChar c = (if isUpperAZ c \<or> (192 \<le> charCode c \<and> charCode c \<le> 222 \<and> charCode c \<noteq> 215)
                  then char_of (charCode c + 32) else c)"

definition toLowerCase :: "string \<Rightarrow> string" where
  "toLowerCase s = map lowerChar s"

text \<open>
  UTF-8 of a code unit below 256, and \<open>encodeURIComponent\<close>: every code unit but the
  unreserved ones (letters, digits and \<open>- _ . ! ~ * ' ( )\<close>) becomes its UTF-8 bytes, each
  written \<open>%XX\<close> in upper-case hexadecimal.
\<close>

definition utf8 :: "char \<Rightarrow> nat list" where
  "utf8 c = (if charCode c < 128 then [charCode c]
             else [192 + charCode c div 64, 128 + charCode c mod 64])"

definition hexDigitUpper :: "nat \<Rightarrow> char" where
  "hexDigitUpper d = ''0123456789ABCDEF'' ! d"

definition percentByte :: "nat \<Rightarrow> string" where
  "percentByte b = [CHR ''%'', hexDigitUpper (b div 16), hexDigitUpper (b mod 16)]"

definition uriUnreserved :: "char \<Rightarrow> bool" where
  "uriUnreserved c = (isAlnum c \<or> charCode c \<in> {45, 95, 46, 33, 126, 42, 39, 40, 41})"

definition encodeURIComponent :: "string \<Rightarrow> string" where
  "encodeURIComponent s =
     concat (map (\<lambda>c. if uriUnreserved c then [c] else concat (map percentByte (utf8 c))) s)"

text \<open>\<open>startsWith\<close>, \<open>endsWith\<close> and \<open>includes\<close> of \<open>String.prototype\<close>.\<close>

definition startsWith :: "string \<Rightarrow> string \<Rightarrow> bool" where
  "startsWith s p = (take (length p) s = p)"

definition endsWith :: "string \<Rightarrow> string \<Rightarrow> bool" where
  "endsWith s p = startsWith (rev s) (rev p)"

fun includesStr :: "string \<Rightarrow> string \<Rightarrow> bool" where
  "includesStr [] p = (p = [])"
| "includesStr (c # cs) p = (startsWith (c # cs) p \<or> includesStr cs p)"

text \<open>\<open>splitOn d s\<close> is \<open>s.split(d)\<close> for a one-character separator.\<close>

fun splitOn :: "char \<Rightarrow> string \<Rightarrow> string list" where
  "splitOn d [] = [[]]"
| "splitOn d (c # cs) =
     (if c = d then [] # splitOn d cs
      else (case splitOn d cs of [] \<Rightarrow> [[c]] | w # ws \<Rightarrow> (c # w) # ws))"

section \<open>CSV ingestion: \<open>src/csv-parser.js\<close>\<close>

text \<open>
  The regular expression of \<open>validateEmail\<close>,
  \<^verbatim>\<open>/^[a-zA-Z0-9.!#$%&'*+/=?^_`{|}~-]+@LABEL(?:\.LABEL)*$/\<close> with
  \<^verbatim>\<open>LABEL = [a-zA-Z0-9](?:[a-zA-Z0-9-]{0,61}[a-zA-Z0-9])?\<close>.
  The class of the local part has no \<open>@\<close>, so the local part is the text before the first
  \<open>@\<close>; a label has neither \<open>.\<close> nor \<open>@\<close>, so the labels are the pieces of the rest
  between its dots. A label is 1 to 63 letters, digits and hyphens that starts and ends with
  a letter or a digit.
\<close>

definition isLocalChar :: "char \<Rightarrow> bool" where
  "isLocalChar c = (isAlnum c \<or> charCode c \<in>
     {46, 33, 35, 36, 37, 38, 39, 42, 43, 47, 61, 63, 94, 95, 96, 123, 124, 125, 126, 45})"

definition isLabel :: "string \<Rightarrow> bool" where
  "isLabel l = (l \<noteq> [] \<and> length l \<le> 63 \<and> isAlnum (hd l) \<and> isAlnum (last l)
                \<and> list_all (\<lambda>c. isAlnum c \<or> c = CHR ''-'') l)"

definition emailRegexTest :: "string \<Rightarrow> bool" where
  "emailRegexTest s =
     (let localPart = takeWhile (\<lambda>c. c \<noteq> CHR ''@'') s;
          rest = dropWhile (\<lambda>c. c \<noteq> CHR ''@'') s
      in localPart \<noteq> [] \<and> list_all isLocalChar localPart
         \<and> (case rest of [] \<Rightarrow> False | atSign # domainPart \<Rightarrow> list_all isLabel (splitOn CHR ''.'' domainPart)))"

text \<open>
  \<^verbatim>\<open>
  export const validateEmail = email => {
    if (!email || typeof email !== 'string') { return false; }
    const emailRegex = ...;
    if (email.includes('..') || email.startsWith('.') || email.endsWith('.')) { return false; }
    if (email.includes(' ')) { return false; }
    return emailRegex.test(email.trim());
  };
  \<close>
\<close>

definition validateEmail :: "jsval \<Rightarrow> bool" where
  "validateEmail email =
     (if \<not> truthy email then False
      else case email of
             JStr s \<Rightarrow>
               if includesStr s ''..'' \<or> startsWith s ''.'' \<or> endsWith s ''.'' then False
               else if includesStr s '' '' then False
               else emailRegexTest (trim s)
           | _ \<Rightarrow> False)"

text \<open>
  \<open>(row.Email || row.email)?.trim()\<close>: \<open>undefined\<close> for a missing value, the trimmed
  string for a string, and a \<open>TypeError\<close> for any other value, which has no \<open>trim\<close>.
\<close>

definition optionalTrim :: "jsval \<Rightarrow> js_error + jsval" where
  "optionalTrim v = (case v of
       JUndefined \<Rightarrow> Inr JUndefined
     | JNull \<Rightarrow> Inr JUndefined
     | JStr s \<Rightarrow> Inr (JStr (trim s))
     | _ \<Rightarrow> Inl (TypeError ''trim is not a function''))"

definition rowEmail :: "jsobj \<Rightarrow> js_error + jsval" where
  "rowEmail row = optionalTrim (js_or (js_get row ''Email'') (js_get row ''email''))"

text \<open>The entry pushed to \<open>skippedEmails\<close> for the row at index \<open>i\<close>.\<close>

definition skippedEntry :: "nat \<Rightarrow> jsval \<Rightarrow> jsobj" where
  "skippedEntry i email =
     [''rowNumber'' \<mapsto> jsNat (i + 1),
      ''email'' \<mapsto> js_or email (JStr ''empty''),
      ''reason'' \<mapsto> JStr ''Invalid email format'']"

record csv_result =
  validData :: "jsobj list"
  skippedEmails :: "jsobj list"
  totalRows :: nat
  validRows :: nat
  skippedRows :: nat

text \<open>
  The loop of \<open>validateCSVStructure\<close> over the rows from index \<open>i\<close> on, with the two
  arrays it pushes to (\<open>valid\<close> for \<open>validData\<close>, \<open>skipped\<close> for \<open>skippedEmails\<close>):
  \<^verbatim>\<open>
  for (let i = 0; i < data.length; i++) {
    const row = data[i];
    const email = (row.Email || row.email)?.trim();
    if (!validateEmail(email)) {
      skippedEmails.push({ rowNumber: i + 1, email: email || 'empty',
                           reason: 'Invalid email format' });
    } else {
      validData.push(row);
    }
  }
  \<close>
\<close>

fun filterRows :: "jsobj list \<Rightarrow> nat \<Rightarrow> jsobj list \<Rightarrow> jsobj list
    \<Rightarrow> js_error + (jsobj list \<times> jsobj list)" where
  "filterRows [] i valid skipped = Inr (valid, skipped)"
| "filterRows (row # rest) i valid skipped =
     (case rowEmail row of
        Inl e \<Rightarrow> Inl e
      | Inr email \<Rightarrow>
          if \<not> validateEmail email
          then filterRows rest (i + 1) valid (skipped @ [skippedEntry i email])
          else filterRows rest (i + 1) (valid @ [row]) skipped)"

text \<open>
  \<^verbatim>\<open>
  export const validateCSVStructure = data => {
    if (!Array.isArray(data) || data.length === 0) { throw new Error('CSV file is empty'); }
    const firstRow = data[0];
    const emailField = firstRow.Email || firstRow.email;
    if (!emailField && !Object.prototype.hasOwnProperty.call(firstRow, 'Email')
        && !Object.prototype.hasOwnProperty.call(firstRow, 'email')) {
      throw new Error('CSV must contain an "Email" or "email" column');
    }
    const validData = []; const skippedEmails = [];
    for (...) { ... }
    return { validData, skippedEmails, totalRows: data.length,
             validRows: validData.length, skippedRows: skippedEmails.length };
  };
  \<close>
\<close>

definition validateCSVStructure :: "jsobj list \<Rightarrow> js_error + csv_result" where
  "validateCSVStructure data =
     (case data of
        [] \<Rightarrow> Inl (Error ''CSV file is empty'')
      | firstRow # otherRows \<Rightarrow>
          (let emailField = js_or (js_get firstRow ''Email'') (js_get firstRow ''email'')
           in if \<not> truthy emailField \<and> firstRow ''Email'' = None \<and> firstRow ''email'' = None
              then Inl (Error (''CSV must contain an '' @ CHR 0x22 # ''Email'' @ CHR 0x22 # '' or ''
                          @ CHR 0x22 # ''email'' @ CHR 0x22 # '' column''))
              else (case filterRows data 0 [] [] of
                      Inl e \<Rightarrow> Inl e
                    | Inr (valid, skipped) \<Rightarrow>
                        Inr \<lparr> validData = valid, skippedEmails = skipped,
                              totalRows = length data, validRows = length valid,
                              skippedRows = length skipped \<rparr>)))"

text \<open>
  An earlier version of the same function, also in the repository, stops at the first
  invalid address instead of collecting it:
  \<^verbatim>\<open>
  if (!Object.prototype.hasOwnProperty.call(firstRow, 'email')) {
    throw new Error('CSV must contain an "email" column');
  }
  for (let i = 0; i < data.length; i++) {
    const row = data[i];
    const email = row.email?.trim();
    if (!validateEmail(email)) {
      throw new Error(`Invalid email address found: ${email || 'empty'}`);
    }
  }
  \<close>
\<close>

fun checkRows_failFast :: "jsobj list \<Rightarrow> js_error + unit" where
  "checkRows_failFast [] = Inr ()"
| "checkRows_failFast (row # rest) =
     (case optionalTrim (js_get row ''email'') of
        Inl e \<Rightarrow> Inl e
      | Inr email \<Rightarrow>
          if \<not> validateEmail email
          then Inl (Error (''Invalid email address found: '' @ toString (js_or email (JStr ''empty''))))
          else checkRows_failFast rest)"

definition validateCSVStructure_failFast :: "jsobj list \<Rightarrow> js_error + unit" where
  "validateCSVStructure_failFast data =
     (case data of
        [] \<Rightarrow> Inl (Error ''CSV file is empty'')
      | firstRow # otherRows \<Rightarrow>
          if firstRow ''email'' = None
          then Inl (Error (''CSV must contain an '' @ CHR 0x22 # ''email'' @ CHR 0x22 # '' column''))
          else checkRows_failFast data)"

text \<open>
  A row is valid when its trimmed address passes \<open>validateEmail\<close>: the test of the loop
  above, as a predicate on rows.
\<close>

definition validRow :: "jsobj \<Rightarrow> bool" where
  "validRow row = (case rowEmail row of Inl e \<Rightarrow> False | Inr email \<Rightarrow> validateEmail email)"

section \<open>Template processor: \<open>src/template-processor.js\<close>\<close>

text \<open>
  The regular expression \<open>/\{(\w+)\}/g\<close> matches at an opening brace when the longest run
  of word characters after it is not empty and is followed by a closing brace: a closing
  brace is not a word character, so no shorter run can match. \<open>closesPlaceholder cs\<close> says
  so of the text \<open>cs\<close> after an opening brace.
\<close>

definition closesPlaceholder :: "string \<Rightarrow> bool" where
  "closesPlaceholder cs = (takeWhile isWordChar cs \<noteq> []
      \<and> (case dropWhile isWordChar cs of [] \<Rightarrow> False | d # _ \<Rightarrow> d = CHR ''}''))"

text \<open>
  \<open>template.replace(/\{(\w+)\}/g, (match, key) => ...)\<close>: one pass from left to right;
  each match is replaced by what the callback \<open>f\<close> returns for its key, the scan goes on
  after the closing brace, and the replacement text is not scanned again.
\<close>

function replacePlaceholders :: "(string \<Rightarrow> string) \<Rightarrow> string \<Rightarrow> string" where
  "replacePlaceholders f [] = []"
| "replacePlaceholders f (c # cs) =
     (if c = CHR ''{'' \<and> closesPlaceholder cs
      then f (takeWhile isWordChar cs) @ replacePlaceholders f (tl (dropWhile isWordChar cs))
      else c # replacePlaceholders f cs)"
  by pat_completeness auto
termination
proof (relation "measure (\<lambda>(f, s). length s)")
  fix f :: "string \<Rightarrow> string" and c :: char and cs :: string
  assume "c = CHR ''{'' \<and> closesPlaceholder cs"
  then have "dropWhile isWordChar cs \<noteq> []"
    by (cases "dropWhile isWordChar cs") (simp_all add: closesPlaceholder_def)
  then have "length (tl (dropWhile isWordChar cs)) < length (dropWhile isWordChar cs)"
    by simp
  also have "\<dots> \<le> length cs" by (rule length_dropWhile_le)
  finally show "((f, tl (dropWhile isWordChar cs)), (f, c # cs)) \<in> measure (\<lambda>(f, s). length s)"
    by simp
qed simp_all

text \<open>
  The callback of both renderers is \<open>(match, key) => data[key] || ''\<close>, and \<open>replace\<close>
  converts what it returns to a string. The key is any run of word characters, so the
  lookup is \<open>dataLookup\<close>: a key such as \<open>constructor\<close> or \<open>toString\<close> finds the member
  that \<open>data\<close> inherits.
\<close>

definition renderString :: "jsobj \<Rightarrow> string \<Rightarrow> string" where
  "renderString data s =
     replacePlaceholders (\<lambda>key. toString (js_or (dataLookup data key) (JStr ''''))) s"

text \<open>
  \<^verbatim>\<open>
  export const processTemplate = (template, data) => {
    if (template === null || template === undefined) { return template; }
    if (typeof template !== 'string') { return template; }
    return template.replace(/\{(\w+)\}/g, (match, key) => { return data[key] || ''; });
  };
  \<close>
\<close>

definition processTemplate :: "jsval \<Rightarrow> jsobj \<Rightarrow> jsval" where
  "processTemplate template data =
     (if template = JNull \<or> template = JUndefined then template
      else case template of
             JStr s \<Rightarrow> JStr (renderString data s)
           | _ \<Rightarrow> template)"

text \<open>
  \<^verbatim>\<open>
  export const processTemplateForSubscriber = (template, subscriber, confirmationToken) => {
    const templateData = { ...subscriber, confirmation_token: confirmationToken,
                           email: subscriber.email };
    const confirmationUrl = processTemplate(template.confirmationUrl, {
      ...templateData, email: encodeURIComponent(subscriber.email) });
    const fullTemplateData = { ...templateData, confirmation_url: confirmationUrl };
    const processedTemplate = {
      subject: processTemplate(template.subject, fullTemplateData),
      text: processTemplate(template.text, fullTemplateData),
    };
    if (template.html) {
      processedTemplate.html = processTemplate(template.html, fullTemplateData);
    }
    return processedTemplate;
  };
  \<close>
  The three constants of the function are definitions of their own; the template, the
  subscriber and the result are objects.
\<close>

definition templateData :: "jsobj \<Rightarrow> jsval \<Rightarrow> jsobj" where
  "templateData subscriber confirmationToken =
     subscriber(''confirmation_token'' \<mapsto> confirmationToken,
                ''email'' \<mapsto> js_get subscriber ''email'')"

definition confirmationUrl :: "jsobj \<Rightarrow> jsobj \<Rightarrow> jsval \<Rightarrow> jsval" where
  "confirmationUrl template subscriber confirmationToken =
     processTemplate (js_get template ''confirmationUrl'')
       ((templateData subscriber confirmationToken)
          (''email'' \<mapsto> JStr (encodeURIComponent (toString (js_get subscriber ''email'')))))"

definition fullTemplateData :: "jsobj \<Rightarrow> jsobj \<Rightarrow> jsval \<Rightarrow> jsobj" where
  "fullTemplateData template subscriber confirmationToken =
     (templateData subscriber confirmationToken)
       (''confirmation_url'' \<mapsto> confirmationUrl template subscriber confirmationToken)"

definition processTemplateForSubscriber :: "jsobj \<Rightarrow> jsobj \<Rightarrow> jsval \<Rightarrow> jsobj" where
  "processTemplateForSubscriber template subscriber confirmationToken =
     (let full = fullTemplateData template subscriber confirmationToken;
          processedTemplate =
            [''subject'' \<mapsto> processTemplate (js_get template ''subject'') full,
             ''text'' \<mapsto> processTemplate (js_get template ''text'') full]
      in if truthy (js_get template ''html'')
         then processedTemplate(''html'' \<mapsto> processTemplate (js_get template ''html'') full)
         else processedTemplate)"

text \<open>
  A name is inherited when \<open>Object.prototype\<close> has a member of that name.
  A string has a placeholder when it has an occurrence of \<open>{key}\<close> for a non-empty key of
  word characters. This is the specification's notion, used to state what the renderer
  leaves alone.
\<close>

definition inheritedName :: "string \<Rightarrow> bool" where
  "inheritedName k = (k = ''constructor'' \<or> k = ''__proto__'' \<or> k \<in> set objectPrototypeFunctions)"

definition hasPlaceholder :: "string \<Rightarrow> bool" where
  "hasPlaceholder s = (\<exists>pre key post. s = pre @ CHR ''{'' # key @ CHR ''}'' # post
                        \<and> key \<noteq> [] \<and> (\<forall>c\<in>set key. isWordChar c))"

section \<open>Confirmation tokens: \<open>src/confirmation-links.js\<close>\<close>

text \<open>
  \<open>createHmac('sha256', key)\<close>, \<open>update\<close> and \<open>digest('hex')\<close> of Node's \<open>crypto\<close>: SHA-256
  (FIPS 180-4) on bytes, with 32-bit words whose addition wraps, HMAC (RFC 2104) over it,
  and the digest in lower-case hexadecimal. A string is hashed as its UTF-8 bytes. The
  round constants are the first 32 bits of the fractional parts of the cube roots of the
  first 64 primes, the initial hash value those of the square roots of the first 8, written
  in decimal.
\<close>

definition sha256_K :: "32 word list" where
  "sha256_K = map of_nat
    [1116352408, 1899447441, 3049323471, 3921009573, 961987163, 1508970993,
     2453635748, 2870763221, 3624381080, 310598401, 607225278, 1426881987,
     1925078388, 2162078206, 2614888103, 3248222580, 3835390401, 4022224774,
     264347078, 604807628, 770255983, 1249150122, 1555081692, 1996064986,
     2554220882, 2821834349, 2952996808, 3210313671, 3336571891, 3584528711,
     113926993, 338241895, 666307205, 773529912, 1294757372, 1396182291,
     1695183700, 1986661051, 2177026350, 2456956037, 2730485921, 2820302411,
     3259730800, 3345764771, 3516065817, 3600352804, 4094571909, 275423344,
     430227734, 506948616, 659060556, 883997877, 958139571, 1322822218,
     1537002063, 1747873779, 1955562222, 2024104815, 2227730452, 2361852424,
     2428436474, 2756734187, 3204031479, 3329325298]"

definition sha256_H0 :: "32 word list" where
  "sha256_H0 = map of_nat
    [1779033703, 3144134277, 1013904242, 2773480762,
     1359893119, 2600822924, 528734635, 1541459225]"

definition ch :: "32 word \<Rightarrow> 32 word \<Rightarrow> 32 word \<Rightarrow> 32 word" where
  "ch x y z = (x AND y) XOR (NOT x AND z)"

definition maj :: "32 word \<Rightarrow> 32 word \<Rightarrow> 32 word \<Rightarrow> 32 word" where
  "maj x y z = (x AND y) XOR (x AND z) XOR (y AND z)"

definition bsig0 :: "32 word \<Rightarrow> 32 word" where
  "bsig0 x = word_rotr 2 x XOR word_rotr 13 x XOR word_rotr 22 x"

definition bsig1 :: "32 word \<Rightarrow> 32 word" where
  "bsig1 x = word_rotr 6 x XOR word_rotr 11 x XOR word_rotr 25 x"

definition ssig0 :: "32 word \<Rightarrow> 32 word" where
  "ssig0 x = word_rotr 7 x XOR word_rotr 18 x XOR drop_bit 3 x"

definition ssig1 :: "32 word \<Rightarrow> 32 word" where
  "ssig1 x = word_rotr 17 x XOR word_rotr 19 x XOR drop_bit 10 x"

text \<open>Bytes are numbers below 256; words and lengths are big-endian.\<close>

definition wordOfBytes :: "nat list \<Rightarrow> 32 word" where
  "wordOfBytes bs = of_nat (foldl (\<lambda>acc b. acc * 256 + b) 0 bs)"

definition bytesOfWord :: "32 word \<Rightarrow> nat list" where
  "bytesOfWord w = map (\<lambda>i. (unat w div 256 ^ (3 - i)) mod 256) [0..<4]"

definition lengthBytes :: "nat \<Rightarrow> nat list" where
  "lengthBytes n = map (\<lambda>i. (n div 256 ^ (7 - i)) mod 256) [0..<8]"

definition sha256_pad :: "nat list \<Rightarrow> nat list" where
  "sha256_pad msg =
     msg @ [128] @ replicate ((119 - length msg mod 64) mod 64) 0 @ lengthBytes (8 * length msg)"

fun chunks :: "nat \<Rightarrow> 'a list \<Rightarrow> 'a list list" where
  "chunks n xs = (if n = 0 \<or> xs = [] then [] else take n xs # chunks n (drop n xs))"

declare chunks.simps [simp del]

definition sha256_schedule :: "nat list \<Rightarrow> 32 word list" where
  "sha256_schedule block =
     fold (\<lambda>t w. w @ [ssig1 (w ! (t - 2)) + w ! (t - 7) + ssig0 (w ! (t - 15)) + w ! (t - 16)])
          [16..<64] (map wordOfBytes (chunks 4 block))"

definition sha256_round :: "32 word \<times> 32 word \<Rightarrow> 32 word list \<Rightarrow> 32 word list" where
  "sha256_round kw s =
     (case s of
        [a, b, c, d, e, f, g, h] \<Rightarrow>
          (let t1 = h + bsig1 e + ch e f g + fst kw + snd kw;
               t2 = bsig0 a + maj a b c
           in [t1 + t2, a, b, c, d + t1, e, f, g])
      | _ \<Rightarrow> s)"

definition sha256_compress :: "nat list \<Rightarrow> 32 word list \<Rightarrow> 32 word list" where
  "sha256_compress block hs =
     map2 (+) hs (fold sha256_round (zip sha256_K (sha256_schedule block)) hs)"

definition sha256 :: "nat list \<Rightarrow> nat list" where
  "sha256 msg = concat (map bytesOfWord (fold sha256_compress (chunks 64 (sha256_pad msg)) sha256_H0))"

definition hmac_sha256 :: "nat list \<Rightarrow> nat list \<Rightarrow> nat list" where
  "hmac_sha256 key msg =
     (let k0 = (if length key > 64 then sha256 key else key);
          k = k0 @ replicate (64 - length k0) 0
      in sha256 (map (\<lambda>b. b XOR 92) k @ sha256 (map (\<lambda>b. b XOR 54) k @ msg)))"

definition hexDigitLower :: "nat \<Rightarrow> char" where
  "hexDigitLower d = ''0123456789abcdef'' ! d"

definition hexOfBytes :: "nat list \<Rightarrow> string" where
  "hexOfBytes bs = concat (map (\<lambda>b. [hexDigitLower (b div 16), hexDigitLower (b mod 16)]) bs)"

definition utf8Bytes :: "string \<Rightarrow> nat list" where
  "utf8Bytes s = concat (map utf8 s)"

definition hmacHex :: "string \<Rightarrow> string \<Rightarrow> string" where
  "hmacHex key msg = hexOfBytes (hmac_sha256 (utf8Bytes key) (utf8Bytes msg))"

text \<open>
  \<^verbatim>\<open>
  const SECRET_KEY = process.env.CONFIRMATION_SECRET || 'default-secret-key-change-in-production';
  \<close>
  The environment variable is a parameter: \<open>None\<close> when it is not set.
\<close>

definition SECRET_KEY :: "string option \<Rightarrow> string" where
  "SECRET_KEY env =
     (case env of
        None \<Rightarrow> ''default-secret-key-change-in-production''
      | Some s \<Rightarrow> if s \<noteq> [] then s else ''default-secret-key-change-in-production'')"

text \<open>
  \<^verbatim>\<open>
  export const generateTokenForSubscriber = subscriber => {
    if (!subscriber.email) { throw new Error('Subscriber must have an email address'); }
    const email = subscriber.email.toLowerCase().trim();
    const hmac = createHmac('sha256', SECRET_KEY);
    hmac.update(email);
    const hash = hmac.digest('hex');
    return hash.substring(0, 32);
  };
  \<close>
  A truthy address that is not a string has no \<open>toLowerCase\<close>: a \<open>TypeError\<close>.
\<close>

definition generateTokenForSubscriber :: "string option \<Rightarrow> jsobj \<Rightarrow> js_error + string" where
  "generateTokenForSubscriber env subscriber =
     (if \<not> truthy (js_get subscriber ''email'')
      then Inl (Error ''Subscriber must have an email address'')
      else case js_get subscriber ''email'' of
             JStr s \<Rightarrow>
               (let email = trim (toLowerCase s);
                    hash = hmacHex (SECRET_KEY env) email
                in Inr (take 32 hash))
           | _ \<Rightarrow> Inl (TypeError ''subscriber.email.toLowerCase is not a function''))"


text \<open>
  \<^verbatim>\<open>
  export const validateConfirmationToken = (token, email) => {
    if (!token || !email) { return false; }
    try {
      const normalizedEmail = email.toLowerCase().trim();
      const expectedToken = generateTokenForSubscriber({ email: normalizedEmail });
      return token === expectedToken;
    } catch { return false; }
  };
  \<close>
  On a token and an address that are strings. Here the address is normalised before
  \<open>generateTokenForSubscriber\<close> sees it, so its guard runs on the normalised address.
\<close>

definition validateConfirmationToken :: "string option \<Rightarrow> string \<Rightarrow> string \<Rightarrow> bool" where
  "validateConfirmationToken env token email =
     (if token = [] \<or> email = [] then False
      else let normalizedEmail = trim (toLowerCase email)
           in case generateTokenForSubscriber env [''email'' \<mapsto> JStr normalizedEmail] of
                Inr expectedToken \<Rightarrow> token = expectedToken
              | Inl error \<Rightarrow> False)"
section \<open>Mailgun client and bulk dispatcher: \<open>src/mailgun-client.js\<close>\<close>

text \<open>
  The provider is outside the program. \<open>client.mailgun.messages.create(domain, data)\<close> is
  a field of the client: given the state \<open>'w\<close> of the world it either rejects or resolves
  with a response object, and it leaves the world in a new state. One thing is assumed of
  it: what it rejects with is an error object whose \<open>message\<close> is a string, the only part
  of it that \<open>sendEmail\<close> reads, so a rejection is that string. (The handler of
  \<open>sendEmail\<close> reads \<open>error.message\<close>; a provider rejecting with \<open>null\<close> or
  \<open>undefined\<close> would make the handler itself throw, and is not in the model.) Which calls
  it rejects, with which messages, and what it answers otherwise, is left open.
\<close>

record mailgun_config =
  apiKey :: string
  domain :: string
  fromEmail :: string
  fromName :: string

record 'w client =
  config :: mailgun_config
  messages_create :: "'w \<Rightarrow> string \<Rightarrow> jsobj \<Rightarrow> (string + jsobj) \<times> 'w"

fun errorMessage :: "js_error \<Rightarrow> string" where
  "errorMessage (Error m) = m"
| "errorMessage (TypeError m) = m"

text \<open>
  \<^verbatim>\<open>
  const validateEmailData = emailData => {
    if (!emailData.to) { throw new Error('Recipient email is required'); }
    if (!validateEmail(emailData.to)) { throw new Error('Invalid recipient email format'); }
    if (!emailData.subject) { throw new Error('Email subject is required'); }
    if (!emailData.text && !emailData.html) {
      throw new Error('Either text or html content is required');
    }
  };
  \<close>
\<close>

definition validateEmailData :: "jsobj \<Rightarrow> js_error + unit" where
  "validateEmailData emailData =
     (if \<not> truthy (js_get emailData ''to'') then Inl (Error ''Recipient email is required'')
      else if \<not> validateEmail (js_get emailData ''to'')
      then Inl (Error ''Invalid recipient email format'')
      else if \<not> truthy (js_get emailData ''subject'') then Inl (Error ''Email subject is required'')
      else if \<not> truthy (js_get emailData ''text'') \<and> \<not> truthy (js_get emailData ''html'')
      then Inl (Error ''Either text or html content is required'')
      else Inr ())"

text \<open>
  \<open>Object.entries\<close> of a truthy value: the properties of an object, the indexed characters
  of a string, nothing for a number or a boolean.
\<close>

definition objectEntries :: "jsval \<Rightarrow> (string \<times> jsval) list" where
  "objectEntries v = (case v of
       JObj kvs \<Rightarrow> kvs
     | JStr s \<Rightarrow> map (\<lambda>i. (showNat i, JStr [s ! i])) [0..<length s]
     | _ \<Rightarrow> [])"

text \<open>
  The message handed to the provider:
  \<^verbatim>\<open>
  const messageData = {
    from: `${client.config.fromName} <${client.config.fromEmail}>`,
    to: emailData.to, subject: emailData.subject, text: emailData.text, html: emailData.html,
  };
  if (emailData.headers) {
    Object.entries(emailData.headers).forEach(([key, value]) => {
      messageData[`h:${key}`] = value;
    });
  }
  \<close>
\<close>

definition messageDataFor :: "'w client \<Rightarrow> jsobj \<Rightarrow> jsobj" where
  "messageDataFor client emailData =
     (let messageData =
            [''from'' \<mapsto> JStr (fromName (config client) @ '' <'' @ fromEmail (config client) @ ''>''),
             ''to'' \<mapsto> js_get emailData ''to'',
             ''subject'' \<mapsto> js_get emailData ''subject'',
             ''text'' \<mapsto> js_get emailData ''text'',
             ''html'' \<mapsto> js_get emailData ''html'']
      in if truthy (js_get emailData ''headers'')
         then fold (\<lambda>(key, value) md. md(''h:'' @ key \<mapsto> value))
                   (objectEntries (js_get emailData ''headers'')) messageData
         else messageData)"

text \<open>
  \<^verbatim>\<open>
  export const sendEmail = async (client, emailData) => {
    try {
      validateEmailData(emailData);
      const messageData = ...;
      const response = await client.mailgun.messages.create(client.config.domain, messageData);
      return { success: true, messageId: response.id, response: response.message };
    } catch (error) {
      return { success: false, error: error.message };
    }
  };
  \<close>
\<close>

definition sendEmail :: "'w client \<Rightarrow> jsobj \<Rightarrow> 'w \<Rightarrow> jsobj \<times> 'w" where
  "sendEmail client emailData w =
     (case validateEmailData emailData of
        Inl e \<Rightarrow> ([''success'' \<mapsto> JBool False, ''error'' \<mapsto> JStr (errorMessage e)], w)
      | Inr ok \<Rightarrow>
          (case messages_create client w (domain (config client)) (messageDataFor client emailData) of
             (Inl msg, w') \<Rightarrow> ([''success'' \<mapsto> JBool False, ''error'' \<mapsto> JStr msg], w')
           | (Inr response, w') \<Rightarrow>
               ([''success'' \<mapsto> JBool True,
                 ''messageId'' \<mapsto> js_get response ''id'',
                 ''response'' \<mapsto> js_get response ''message''], w')))"

text \<open>
  The renderer local to this module. A truthy template that is not a string has no
  \<open>replace\<close>: a \<open>TypeError\<close>, thrown outside any \<open>try\<close>.
  \<^verbatim>\<open>
  const processTemplate = (template, data) => {
    if (!template) return template;
    return template.replace(/\{(\w+)\}/g, (match, key) => { return data[key] || ''; });
  };
  \<close>
\<close>

definition processTemplate_mailgun :: "jsval \<Rightarrow> jsobj \<Rightarrow> js_error + jsval" where
  "processTemplate_mailgun template data =
     (if \<not> truthy template then Inr template
      else case template of
             JStr s \<Rightarrow> Inr (JStr (renderString data s))
           | _ \<Rightarrow> Inl (TypeError ''template.replace is not a function''))"

text \<open>
  The body of the loop up to the send:
  \<^verbatim>\<open>
  const processedEmail = {
    to: subscriber.email,
    subject: processTemplate(emailTemplate.subject, subscriber),
    text: processTemplate(emailTemplate.text, subscriber),
    html: processTemplate(emailTemplate.html, subscriber),
  };
  if (emailTemplate.headers) { processedEmail.headers = emailTemplate.headers; }
  \<close>
\<close>

definition processedEmailFor :: "jsobj \<Rightarrow> jsobj \<Rightarrow> js_error + jsobj" where
  "processedEmailFor emailTemplate subscriber =
     (case processTemplate_mailgun (js_get emailTemplate ''subject'') subscriber of
        Inl e \<Rightarrow> Inl e
      | Inr subjectV \<Rightarrow>
     (case processTemplate_mailgun (js_get emailTemplate ''text'') subscriber of
        Inl e \<Rightarrow> Inl e
      | Inr textV \<Rightarrow>
     (case processTemplate_mailgun (js_get emailTemplate ''html'') subscriber of
        Inl e \<Rightarrow> Inl e
      | Inr htmlV \<Rightarrow>
          (let processedEmail = [''to'' \<mapsto> js_get subscriber ''email'', ''subject'' \<mapsto> subjectV,
                                 ''text'' \<mapsto> textV, ''html'' \<mapsto> htmlV]
           in Inr (if truthy (js_get emailTemplate ''headers'')
                   then processedEmail(''headers'' \<mapsto> js_get emailTemplate ''headers'')
                   else processedEmail)))))"

text \<open>The entry pushed to \<open>results\<close>: \<open>{ email: subscriber.email, ...result }\<close>.\<close>

definition bulkResult :: "jsobj \<Rightarrow> jsobj \<Rightarrow> jsobj" where
  "bulkResult subscriber result = [''email'' \<mapsto> js_get subscriber ''email''] ++ result"

text \<open>
  What the dispatcher does to the outside, in order: it hands an email to \<open>sendEmail\<close>,
  and it waits (\<open>await delay(ms)\<close>, a timer of \<open>ms\<close> milliseconds).
\<close>

datatype event = Sent jsobj | Paused rat

fun isPaused :: "event \<Rightarrow> bool" where
  "isPaused (Paused ms) = True"
| "isPaused (Sent email) = False"

text \<open>
  The options: \<open>rateLimit\<close> may be left out, and \<open>onProgress\<close>, a callback that acts on the
  world (it logs and draws), may be supplied.
\<close>

record 'w bulk_options =
  rateLimit :: "rat option"
  onProgress :: "(jsobj \<Rightarrow> 'w \<Rightarrow> 'w) option"

text \<open>
  The loop of \<open>sendBulkEmails\<close>, with the index, the array \<open>results\<close>, the events so far
  and the world:
  \<^verbatim>\<open>
  for (let i = 0; i < subscribers.length; i++) {
    const subscriber = subscribers[i];
    const processedEmail = ...;
    const result = await sendEmail(client, processedEmail);
    results.push({ email: subscriber.email, ...result });
    if (i < subscribers.length - 1) { await delay(delayBetweenEmails); }
  }
  return results;
  \<close>
\<close>

function sendLoop :: "'w client \<Rightarrow> jsobj list \<Rightarrow> jsobj \<Rightarrow> rat \<Rightarrow> nat \<Rightarrow> jsobj list \<Rightarrow> event list \<Rightarrow> 'w
    \<Rightarrow> js_error + (jsobj list \<times> event list \<times> 'w)" where
  "sendLoop client subscribers emailTemplate delayBetweenEmails i results trace w =
     (if i < length subscribers
      then (case processedEmailFor emailTemplate (subscribers ! i) of
              Inl e \<Rightarrow> Inl e
            | Inr processedEmail \<Rightarrow>
                sendLoop client subscribers emailTemplate delayBetweenEmails (i + 1)
                  (results @ [bulkResult (subscribers ! i) (fst (sendEmail client processedEmail w))])
                  (trace @ Sent processedEmail
                     # (if int i < int (length subscribers) - 1
                        then [Paused delayBetweenEmails] else []))
                  (snd (sendEmail client processedEmail w)))
      else Inr (results, trace, w))"
  by pat_completeness auto
termination
  by (relation "measure (\<lambda>(client, subscribers, emailTemplate, delayBetweenEmails, i, results, trace, w).
        length subscribers - i)") auto

declare sendLoop.simps [simp del]

text \<open>
  \<^verbatim>\<open>
  export const sendBulkEmails = async (client, subscribers, emailTemplate, options = {}) => {
    const { rateLimit = 10 } = options; // Default 10 emails per second
    const delayBetweenEmails = 1000 / rateLimit;
    const results = [];
    for (...) { ... }
    return results;
  };
  \<close>
  The function returns the results; the model returns with them the events and the world
  it leaves. No other field of \<open>options\<close> is read.
\<close>

definition sendBulkEmails :: "'w client \<Rightarrow> jsobj list \<Rightarrow> jsobj \<Rightarrow> 'w bulk_options \<Rightarrow> 'w
    \<Rightarrow> js_error + (jsobj list \<times> event list \<times> 'w)" where
  "sendBulkEmails client subscribers emailTemplate options w =
     (let rateLimitV = (case rateLimit options of None \<Rightarrow> 10 | Some r \<Rightarrow> r);
          delayBetweenEmails = 1000 / rateLimitV
      in sendLoop client subscribers emailTemplate delayBetweenEmails 0 [] [] w)"

text \<open>
  Notions used to state the properties of the dispatcher. A template field is well typed
  when it is absent or a string. \<open>sendOutcome\<close> is what the send operation does for an email
  in a state of the world: it fails with a message, by a validation error or a rejection
  of the provider, or the provider's response. \<open>worldBefore\<close> is the state of the world when
  the item at index \<open>i\<close> is sent: the one the sends of the items before it have left.
\<close>

definition templateField :: "jsval \<Rightarrow> bool" where
  "templateField v = (case v of JUndefined \<Rightarrow> True | JStr s \<Rightarrow> True | _ \<Rightarrow> False)"

definition wellTypedTemplate :: "jsobj \<Rightarrow> bool" where
  "wellTypedTemplate emailTemplate =
     (templateField (js_get emailTemplate ''subject'') \<and> templateField (js_get emailTemplate ''text'')
      \<and> templateField (js_get emailTemplate ''html''))"

definition sendOutcome :: "'w client \<Rightarrow> jsobj \<Rightarrow> 'w \<Rightarrow> string + jsobj" where
  "sendOutcome client emailData w =
     (case validateEmailData emailData of
        Inl e \<Rightarrow> Inl (errorMessage e)
      | Inr ok \<Rightarrow> fst (messages_create client w (domain (config client)) (messageDataFor client emailData)))"

fun worldBefore :: "'w client \<Rightarrow> jsobj \<Rightarrow> jsobj list \<Rightarrow> 'w \<Rightarrow> nat \<Rightarrow> 'w" where
  "worldBefore client emailTemplate subscribers w 0 = w"
| "worldBefore client emailTemplate [] w (Suc i) = w"
| "worldBefore client emailTemplate (subscriber # rest) w (Suc i) =
     (case processedEmailFor emailTemplate subscriber of
        Inl e \<Rightarrow> w
      | Inr processedEmail \<Rightarrow>
          worldBefore client emailTemplate rest (snd (sendEmail client processedEmail w)) i)"

text \<open>
  The same loop as a recursion on the subscribers that are left, which the proofs follow;
  \<open>sendLoop_dispatch\<close> below shows that the loop computes it.
\<close>

fun dispatch :: "'w client \<Rightarrow> jsobj \<Rightarrow> rat \<Rightarrow> jsobj list \<Rightarrow> 'w
    \<Rightarrow> js_error + (jsobj list \<times> event list \<times> 'w)" where
  "dispatch client emailTemplate delayBetweenEmails [] w = Inr ([], [], w)"
| "dispatch client emailTemplate delayBetweenEmails (subscriber # rest) w =
     (case processedEmailFor emailTemplate subscriber of
        Inl e \<Rightarrow> Inl e
      | Inr processedEmail \<Rightarrow>
          (case dispatch client emailTemplate delayBetweenEmails rest
                  (snd (sendEmail client processedEmail w)) of
             Inl e \<Rightarrow> Inl e
           | Inr (results, trace, w') \<Rightarrow>
               Inr (bulkResult subscriber (fst (sendEmail client processedEmail w)) # results,
                    Sent processedEmail
                      # (if rest \<noteq> [] then [Paused delayBetweenEmails] else []) @ trace,
                    w')))"

section \<open>Result logger: \<open>src/logger.js\<close>\<close>

subsection \<open>Numbers\<close>

text \<open>
  A JavaScript number is an IEEE 754 double. A finite double is a rational number
  \<open>m * 2 ^ e\<close> with \<open>\<bar>m\<bar> \<le> 2 ^ 53\<close> and \<open>e \<ge> -1074\<close>, so the numbers of the logger are
  rationals, and every division and multiplication rounds its exact result to the nearest
  double, a tie going to the even significand.

  \<open>roundHalfEven\<close> rounds a rational to the nearest integer, a tie to the even one.
\<close>

definition roundHalfEven :: "rat \<Rightarrow> int" where
  "roundHalfEven y =
     (let n = \<lfloor>y\<rfloor>; r = y - of_int n
      in if r < 1 / 2 then n
         else if 1 / 2 < r then n + 1
         else if even n then n else n + 1)"

text \<open>
  The exponent of the double nearest to a positive \<open>x\<close>: the \<open>e\<close> with
  \<open>2 ^ 52 \<le> x / 2 ^ e < 2 ^ 53\<close>, found from the bit lengths of numerator and denominator,
  and not below \<open>-1074\<close>, the exponent of the subnormal numbers.
\<close>

definition doubleExponent :: "rat \<Rightarrow> int" where
  "doubleExponent x =
     (let (p, q) = quotient_of x;
          e0 = bitlen p - bitlen q - 53;
          e = (if 2 ^ 53 \<le> x / power_int 2 e0 then e0 + 1 else e0)
      in max e (- 1074))"

text \<open>
  The double nearest to a rational. The results of the logger are far below \<open>2 ^ 1024\<close>,
  where a double overflows to \<open>Infinity\<close>; that case is not in the model.
\<close>

definition roundPositive :: "rat \<Rightarrow> rat" where
  "roundPositive x =
     of_int (roundHalfEven (x / power_int 2 (doubleExponent x))) * power_int 2 (doubleExponent x)"

definition roundDouble :: "rat \<Rightarrow> rat" where
  "roundDouble x =
     (if x = 0 then 0 else if x < 0 then - roundPositive (- x) else roundPositive x)"

text \<open>The operators \<open>/\<close> and \<open>*\<close> on doubles.\<close>

definition fdiv :: "rat \<Rightarrow> rat \<Rightarrow> rat" where
  "fdiv a b = roundDouble (a / b)"

definition fmul :: "rat \<Rightarrow> rat \<Rightarrow> rat" where
  "fmul a b = roundDouble (a * b)"

text \<open>
  \<open>Math.round\<close> gives the integer nearest to its argument, a tie going up, with no
  rounding error of its own.
\<close>

definition js_round :: "rat \<Rightarrow> int" where
  "js_round x = \<lfloor>x + 1 / 2\<rfloor>"

subsection \<open>Statistics\<close>

record log_stats =
  total :: int
  successful :: int
  failed :: int
  successRate :: rat

text \<open>
  \<^verbatim>\<open>
  export const getLogStats = logData => {
    const total = logData.length;
    const successful = logData.filter(entry => entry.status === 'success').length;
    const failed = total - successful;
    const successRate = total > 0 ? Math.round((successful / total) * 100 * 100) / 100 : 0;
    return { total, successful, failed, successRate };
  };
  \<close>
  The counts are whole numbers below \<open>2 ^ 32\<close>, which doubles hold exactly.
\<close>

definition getLogStats :: "jsobj list \<Rightarrow> log_stats" where
  "getLogStats logData =
     (let total = int (length logData);
          successful = int (length (filter (\<lambda>entry. js_get entry ''status'' = JStr ''success'') logData));
          failed = total - successful;
          successRate =
            (if total > 0
             then fdiv (of_int (js_round (fmul (fmul (fdiv (of_int successful) (of_int total)) 100) 100))) 100
             else 0)
      in \<lparr> total = total, successful = successful, failed = failed, successRate = successRate \<rparr>)"

section \<open>Example inputs\<close>

text \<open>
  A client for the examples below. Its world counts the calls of the provider (first
  component) and the calls of a progress callback (second component); its provider rejects
  every message to \<open>b@x.co\<close> and accepts every other one.
\<close>

definition exampleConfig :: mailgun_config where
  "exampleConfig = \<lparr> apiKey = ''key-1'', domain = ''mg.example.com'',
                      fromEmail = ''list@example.com'', fromName = ''Mailer'' \<rparr>"

definition exampleCreate :: "nat \<times> nat \<Rightarrow> string \<Rightarrow> jsobj \<Rightarrow> (string + jsobj) \<times> (nat \<times> nat)" where
  "exampleCreate w domainName messageData =
     (if messageData ''to'' = Some (JStr ''b@x.co'')
      then (Inl ''Forbidden'', (fst w + 1, snd w))
      else (Inr [''id'' \<mapsto> JStr ''m1'', ''message'' \<mapsto> JStr ''Queued''], (fst w + 1, snd w)))"

definition exampleClient :: "(nat \<times> nat) client" where
  "exampleClient = \<lparr> config = exampleConfig, messages_create = exampleCreate \<rparr>"

definition countProgress :: "jsobj \<Rightarrow> nat \<times> nat \<Rightarrow> nat \<times> nat" where
  "countProgress progressData w = (fst w, snd w + 1)"

definition exampleTemplate :: jsobj where
  "exampleTemplate = [''subject'' \<mapsto> JStr ''Hi {first_name}'', ''text'' \<mapsto> JStr ''Please confirm'',
                      ''confirmationUrl'' \<mapsto> JStr ''https://e.co/c?t={confirmation_token}'']"

definition confirmTemplate :: jsobj where
  "confirmTemplate = [''subject'' \<mapsto> JStr ''Confirm'',
                      ''text'' \<mapsto> JStr ''Link: {confirmation_url} token: {confirmation_token}'',
                      ''confirmationUrl'' \<mapsto> JStr ''https://e.co/c?t={confirmation_token}'']"

section \<open>Properties of the CSV ingestion\<close>

lemma rowEmail_cells:
  assumes "\<forall>k\<in>{''Email'', ''email''}. row k = None \<or> (\<exists>s. row k = Some (JStr s))"
  shows "\<exists>email. rowEmail row = Inr email"
proof -
  from assms have "js_get row ''Email'' = JUndefined \<or> (\<exists>s. js_get row ''Email'' = JStr s)"
    and "js_get row ''email'' = JUndefined \<or> (\<exists>s. js_get row ''email'' = JStr s)"
    by (auto simp: js_get_def)
  then have "js_or (js_get row ''Email'') (js_get row ''email'') = JUndefined
     \<or> (\<exists>s. js_or (js_get row ''Email'') (js_get row ''email'') = JStr s)"
    by (auto simp: js_or_def)
  then show ?thesis
    by (auto simp: rowEmail_def optionalTrim_def)
qed

lemma filterRows_spec:
  assumes "\<forall>row\<in>set rows. \<exists>email. rowEmail row = Inr email"
  shows "filterRows rows i valid skipped
     = Inr (valid @ filter validRow rows,
            skipped @ map (\<lambda>(j, row). case rowEmail row of
                              Inr email \<Rightarrow> skippedEntry j email | Inl e \<Rightarrow> Map.empty)
                          (filter (\<lambda>(j, row). \<not> validRow row) (enumerate i rows)))"
  using assms
proof (induction rows arbitrary: i valid skipped)
  case Nil
  show ?case by simp
next
  case (Cons row rest)
  from Cons.prems obtain email where e: "rowEmail row = Inr email" by auto
  from Cons.prems have rest: "\<forall>row\<in>set rest. \<exists>email. rowEmail row = Inr email" by simp
  show ?case
  proof (cases "validateEmail email")
    case True
    then show ?thesis
      using Cons.IH [OF rest, of "i + 1" "valid @ [row]" skipped] e
      by (simp add: validRow_def)
  next
    case False
    then show ?thesis
      using Cons.IH [OF rest, of "i + 1" valid "skipped @ [skippedEntry i email]"] e
      by (simp add: validRow_def)
  qed
qed

lemma length_filter_enumerate:
  "length (filter (\<lambda>(j, x). P x) (enumerate i xs)) = length (filter P xs)"
  by (induction xs arbitrary: i) simp_all

text \<open>
  Claim C5. For every non-empty list of rows whose first row has an \<open>Email\<close> or \<open>email\<close>
  column, the cells of these columns being strings as the CSV reader delivers them,
  \<open>validateCSVStructure\<close> returns a result and does not fail: \<open>validData\<close> is the rows
  whose address is valid, in their order; \<open>skippedEmails\<close> has, for each row whose address
  fails validation and in row order, the entry with \<open>rowNumber\<close> the 1-based position of the
  row, \<open>email\<close> the trimmed address (the word \<open>empty\<close> when the address is empty or
  missing) and \<open>reason\<close> the text \<open>Invalid email format\<close>; the counts add up to the
  number of rows.
\<close>

theorem validateCSVStructure_skips_invalid:
  assumes "data \<noteq> []"
    and "hd data ''Email'' \<noteq> None \<or> hd data ''email'' \<noteq> None"
    and "\<forall>row\<in>set data. \<forall>k\<in>{''Email'', ''email''}. row k = None \<or> (\<exists>s. row k = Some (JStr s))"
  shows "\<exists>r. validateCSVStructure data = Inr r
     \<and> validData r = filter validRow data
     \<and> skippedEmails r
         = map (\<lambda>(j, row). case rowEmail row of
                   Inr email \<Rightarrow> [''rowNumber'' \<mapsto> jsNat (j + 1),
                                  ''email'' \<mapsto> js_or email (JStr ''empty''),
                                  ''reason'' \<mapsto> JStr ''Invalid email format'']
                 | Inl e \<Rightarrow> Map.empty)
               (filter (\<lambda>(j, row). \<not> validRow row) (enumerate 0 data))
     \<and> totalRows r = length data
     \<and> validRows r = length (validData r) \<and> skippedRows r = length (skippedEmails r)
     \<and> validRows r + skippedRows r = totalRows r"
proof -
  from assms(1) obtain firstRow otherRows where d: "data = firstRow # otherRows"
    by (cases data) auto
  have col: "\<not> (\<not> truthy (js_or (js_get firstRow ''Email'') (js_get firstRow ''email''))
              \<and> firstRow ''Email'' = None \<and> firstRow ''email'' = None)"
    using assms(2) d by auto
  have cells: "\<forall>row\<in>set data. \<exists>email. rowEmail row = Inr email"
  proof
    fix row assume "row \<in> set data"
    with assms(3) have "\<forall>k\<in>{''Email'', ''email''}. row k = None \<or> (\<exists>s. row k = Some (JStr s))"
      by (rule bspec)
    then show "\<exists>email. rowEmail row = Inr email"
      by (rule rowEmail_cells)
  qed
  let ?valid = "filter validRow data"
  let ?skipped = "map (\<lambda>(j, row). case rowEmail row of
                              Inr email \<Rightarrow> skippedEntry j email | Inl e \<Rightarrow> Map.empty)
                          (filter (\<lambda>(j, row). \<not> validRow row) (enumerate 0 data))"
  have loop: "filterRows data 0 [] [] = Inr (?valid, ?skipped)"
    using filterRows_spec [OF cells, of 0 "[]" "[]"] by simp
  let ?r = "\<lparr> validData = ?valid, skippedEmails = ?skipped, totalRows = length data,
              validRows = length ?valid, skippedRows = length ?skipped \<rparr>"
  have res: "validateCSVStructure data = Inr ?r"
    using col loop unfolding validateCSVStructure_def d by (simp add: Let_def)
  have "length ?skipped = length (filter (\<lambda>row. \<not> validRow row) data)"
    using length_filter_enumerate [of "\<lambda>row. \<not> validRow row" 0 data] by simp
  then have total: "length ?valid + length ?skipped = length data"
    using sum_length_filter_compl [of validRow data] by simp
  have sk: "?skipped = map (\<lambda>(j, row). case rowEmail row of
                   Inr email \<Rightarrow> [''rowNumber'' \<mapsto> jsNat (j + 1),
                                  ''email'' \<mapsto> js_or email (JStr ''empty''),
                                  ''reason'' \<mapsto> JStr ''Invalid email format'']
                 | Inl e \<Rightarrow> Map.empty)
               (filter (\<lambda>(j, row). \<not> validRow row) (enumerate 0 data))"
    by (simp only: skippedEntry_def)
  show ?thesis
    using res total unfolding sk by simp
qed


theorem validateCSVStructure_skips_invalid_witness:
  "\<exists>r. validateCSVStructure
          [[''email'' \<mapsto> JStr ''a@b.co''], [''email'' \<mapsto> JStr ''not-an-email''],
           [''email'' \<mapsto> JStr ''c@d.org'']] = Inr r
       \<and> validData r = [[''email'' \<mapsto> JStr ''a@b.co''], [''email'' \<mapsto> JStr ''c@d.org'']]
       \<and> skippedEmails r = [[''rowNumber'' \<mapsto> jsNat 2, ''email'' \<mapsto> JStr ''not-an-email'',
                             ''reason'' \<mapsto> JStr ''Invalid email format'']]
       \<and> totalRows r = 3"
proof -
  let ?r1 = "[''email'' \<mapsto> JStr ''a@b.co''] :: jsobj"
  let ?r2 = "[''email'' \<mapsto> JStr ''not-an-email''] :: jsobj"
  let ?r3 = "[''email'' \<mapsto> JStr ''c@d.org''] :: jsobj"
  let ?data = "[?r1, ?r2, ?r3]"
  have h1: "?data \<noteq> []" by simp
  have h2: "hd ?data ''Email'' \<noteq> None \<or> hd ?data ''email'' \<noteq> None" by simp
  have h3: "\<forall>row\<in>set ?data. \<forall>k\<in>{''Email'', ''email''}. row k = None \<or> (\<exists>s. row k = Some (JStr s))"
    by simp
  have v1: "validRow ?r1" by code_simp
  have v2: "\<not> validRow ?r2" by code_simp
  have v3: "validRow ?r3" by code_simp
  have e2: "rowEmail ?r2 = Inr (JStr ''not-an-email'')" by code_simp
  have en: "enumerate 0 ?data = [(0, ?r1), (1, ?r2), (2, ?r3)]" by simp
  from validateCSVStructure_skips_invalid [OF h1 h2 h3] obtain r where
    r: "validateCSVStructure ?data = Inr r" "validData r = filter validRow ?data"
       "skippedEmails r
         = map (\<lambda>(j, row). case rowEmail row of
                   Inr email \<Rightarrow> [''rowNumber'' \<mapsto> jsNat (j + 1),
                                  ''email'' \<mapsto> js_or email (JStr ''empty''),
                                  ''reason'' \<mapsto> JStr ''Invalid email format'']
                 | Inl e \<Rightarrow> Map.empty)
               (filter (\<lambda>(j, row). \<not> validRow row) (enumerate 0 ?data))"
       "totalRows r = length ?data"
    by blast
  have "validData r = [?r1, ?r3]"
    using r(2) v1 v2 v3 by simp
  moreover have "skippedEmails r = [[''rowNumber'' \<mapsto> jsNat 2, ''email'' \<mapsto> JStr ''not-an-email'',
                             ''reason'' \<mapsto> JStr ''Invalid email format'']]"
    unfolding r(3) en using v1 v2 v3 e2 by (simp add: js_or_def numeral_2_eq_2)
  moreover have "totalRows r = 3" using r(4) by simp
  ultimately show ?thesis using r(1) by blast
qed

text \<open>A row with a blank address is skipped under the placeholder \<open>empty\<close>.\<close>

lemma validateCSVStructure_empty_email_test:
  "(case validateCSVStructure [[''email'' \<mapsto> JStr ''a@b.co''], [''email'' \<mapsto> JStr ''  '']] of
      Inl e \<Rightarrow> False
    | Inr r \<Rightarrow> validRows r = 1
        \<and> map (\<lambda>entry. (entry ''rowNumber'', entry ''email'', entry ''reason'')) (skippedEmails r)
          = [(Some (jsNat 2), Some (JStr ''empty''), Some (JStr ''Invalid email format''))])"
  by code_simp

text \<open>
  The earlier version of the function fails on the same rows, as the repository's test of
  that version expects.
\<close>

lemma validateCSVStructure_failFast_test:
  "validateCSVStructure_failFast
     [[''email'' \<mapsto> JStr ''a@b.co''], [''email'' \<mapsto> JStr ''not-an-email''],
      [''email'' \<mapsto> JStr ''c@d.org'']]
   = Inl (Error ''Invalid email address found: not-an-email'')"
  by code_simp

section \<open>Properties of the template processor\<close>

lemma not_word_lbrace: "\<not> isWordChar CHR ''{''"
  by (simp add: isWordChar_def isAlnum_def isLowerAZ_def isUpperAZ_def isDigit09_def charCode_def)
lemma not_word_rbrace: "\<not> isWordChar CHR ''}''"
  by (simp add: isWordChar_def isAlnum_def isLowerAZ_def isUpperAZ_def isDigit09_def charCode_def)

lemma closesPlaceholder_key:
  assumes "key \<noteq> []" and "\<forall>c\<in>set key. isWordChar c"
  shows "closesPlaceholder (key @ CHR ''}'' # post)"
    and "takeWhile isWordChar (key @ CHR ''}'' # post) = key"
    and "dropWhile isWordChar (key @ CHR ''}'' # post) = CHR ''}'' # post"
proof -
  show tw: "takeWhile isWordChar (key @ CHR ''}'' # post) = key"
    using assms(2) by (simp add: not_word_rbrace)
  show dw: "dropWhile isWordChar (key @ CHR ''}'' # post) = CHR ''}'' # post"
    using assms(2) by (simp add: not_word_rbrace)
  show "closesPlaceholder (key @ CHR ''}'' # post)"
    unfolding closesPlaceholder_def tw dw using assms(1) by simp
qed

lemma closesPlaceholder_split:
  assumes "closesPlaceholder cs"
  shows "cs = takeWhile isWordChar cs @ CHR ''}'' # tl (dropWhile isWordChar cs)"
proof -
  from assms have "dropWhile isWordChar cs = CHR ''}'' # tl (dropWhile isWordChar cs)"
    by (cases "dropWhile isWordChar cs") (auto simp: closesPlaceholder_def)
  then show ?thesis
    by (metis takeWhile_dropWhile_id)
qed

lemma closesPlaceholder_before_brace:
  "closesPlaceholder (cs @ CHR ''{'' # rest) = closesPlaceholder cs"
proof (cases "\<forall>x\<in>set cs. isWordChar x")
  case True
  then have a: "dropWhile isWordChar (cs @ CHR ''{'' # rest) = CHR ''{'' # rest"
    and b: "dropWhile isWordChar cs = []"
    by (simp_all add: not_word_lbrace)
  show ?thesis unfolding closesPlaceholder_def a b by simp
next
  case False
  then obtain x where x: "x \<in> set cs" "\<not> isWordChar x" by blast
  have tw: "takeWhile isWordChar (cs @ CHR ''{'' # rest) = takeWhile isWordChar cs"
    using x by (rule takeWhile_append1)
  have dw: "dropWhile isWordChar (cs @ CHR ''{'' # rest) = dropWhile isWordChar cs @ CHR ''{'' # rest"
    using x by (rule dropWhile_append1)
  have "dropWhile isWordChar cs \<noteq> []"
    using x by auto
  then show ?thesis
    unfolding closesPlaceholder_def tw dw by (cases "dropWhile isWordChar cs") simp_all
qed

lemma dropWhile_before_brace:
  assumes "closesPlaceholder cs"
  shows "takeWhile isWordChar (cs @ CHR ''{'' # rest) = takeWhile isWordChar cs"
    and "tl (dropWhile isWordChar (cs @ CHR ''{'' # rest)) = tl (dropWhile isWordChar cs) @ CHR ''{'' # rest"
proof -
  from assms have ne: "dropWhile isWordChar cs \<noteq> []"
    by (cases "dropWhile isWordChar cs") (simp_all add: closesPlaceholder_def)
  then obtain x where x: "x \<in> set cs" "\<not> isWordChar x" by auto
  show "takeWhile isWordChar (cs @ CHR ''{'' # rest) = takeWhile isWordChar cs"
    using x by (rule takeWhile_append1)
  have "dropWhile isWordChar (cs @ CHR ''{'' # rest) = dropWhile isWordChar cs @ CHR ''{'' # rest"
    using x by (rule dropWhile_append1)
  then show "tl (dropWhile isWordChar (cs @ CHR ''{'' # rest)) = tl (dropWhile isWordChar cs) @ CHR ''{'' # rest"
    using ne by simp
qed

lemma replacePlaceholders_match:
  "closesPlaceholder cs \<Longrightarrow> replacePlaceholders f (CHR ''{'' # cs)
       = f (takeWhile isWordChar cs) @ replacePlaceholders f (tl (dropWhile isWordChar cs))"
  by simp

lemma replacePlaceholders_skip:
  "\<not> (c = CHR ''{'' \<and> closesPlaceholder cs)
   \<Longrightarrow> replacePlaceholders f (c # cs) = c # replacePlaceholders f cs"
  by auto

declare replacePlaceholders.simps(2) [simp del]

lemma replacePlaceholders_placeholder:
  assumes "key \<noteq> []" and "\<forall>c\<in>set key. isWordChar c"
  shows "replacePlaceholders f (CHR ''{'' # key @ CHR ''}'' # post) = f key @ replacePlaceholders f post"
  using closesPlaceholder_key [OF assms, of post]
    replacePlaceholders_match [of "key @ CHR ''}'' # post" f] by simp

lemma replacePlaceholders_before_brace:
  "replacePlaceholders f (pre @ CHR ''{'' # rest)
     = replacePlaceholders f pre @ replacePlaceholders f (CHR ''{'' # rest)"
proof (induction f pre rule: replacePlaceholders.induct)
  case (1 f)
  show ?case by simp
next
  case (2 f c cs)
  show ?case
  proof (cases "c = CHR ''{'' \<and> closesPlaceholder cs")
    case True
    then have c: "c = CHR ''{''" and cl: "closesPlaceholder cs" by simp_all
    have cl': "closesPlaceholder (cs @ CHR ''{'' # rest)"
      using cl by (simp add: closesPlaceholder_before_brace)
    show ?thesis
      using "2.IH"(1) [OF True] replacePlaceholders_match [OF cl, of f]
        replacePlaceholders_match [OF cl', of f] dropWhile_before_brace [OF cl, of rest] c
      by simp
  next
    case False
    then have no: "\<not> (c = CHR ''{'' \<and> closesPlaceholder (cs @ CHR ''{'' # rest))"
      by (simp add: closesPlaceholder_before_brace)
    show ?thesis
      using "2.IH"(2) [OF False] replacePlaceholders_skip [OF False, of f]
        replacePlaceholders_skip [OF no, of f]
      by simp
  qed
qed

lemma hasPlaceholder_Cons: "hasPlaceholder cs \<Longrightarrow> hasPlaceholder (c # cs)"
proof -
  assume "hasPlaceholder cs"
  then obtain pre key post where "cs = pre @ CHR ''{'' # key @ CHR ''}'' # post"
      "key \<noteq> []" "\<forall>c\<in>set key. isWordChar c"
    unfolding hasPlaceholder_def by blast
  then have "c # cs = (c # pre) @ CHR ''{'' # key @ CHR ''}'' # post \<and> key \<noteq> [] \<and> (\<forall>c\<in>set key. isWordChar c)"
    by simp
  then show "hasPlaceholder (c # cs)" unfolding hasPlaceholder_def by blast
qed

lemma hasPlaceholder_here: 
  assumes "closesPlaceholder cs" 
  shows "hasPlaceholder (CHR ''{'' # cs)"
proof -
  have "CHR ''{'' # cs = [] @ CHR ''{'' # takeWhile isWordChar cs @ CHR ''}'' # tl (dropWhile isWordChar cs)"
    using closesPlaceholder_split [OF assms] by simp
  moreover have "takeWhile isWordChar cs \<noteq> []"
    using assms by (simp add: closesPlaceholder_def)
  moreover have "\<forall>x\<in>set (takeWhile isWordChar cs). isWordChar x"
    by (auto dest: set_takeWhileD)
  ultimately show ?thesis
    unfolding hasPlaceholder_def by blast
qed

lemma replacePlaceholders_none:
  "\<not> hasPlaceholder s \<Longrightarrow> replacePlaceholders f s = s"
proof (induction f s rule: replacePlaceholders.induct)
  case (1 f)
  show ?case by simp
next
  case (2 f c cs)
  have nocond: "\<not> (c = CHR ''{'' \<and> closesPlaceholder cs)"
    using "2.prems" hasPlaceholder_here by blast
  have "\<not> hasPlaceholder cs"
    using "2.prems" hasPlaceholder_Cons by blast
  with "2.IH"(2) [OF nocond] have "replacePlaceholders f cs = cs" by simp
  with replacePlaceholders_skip [OF nocond, of f] show ?case by simp
qed

lemma hasPlaceholder_brace: "hasPlaceholder s \<Longrightarrow> CHR ''{'' \<in> set s"
  by (auto simp: hasPlaceholder_def)

lemma renderString_placeholder:
  assumes "key \<noteq> []" and "\<forall>c\<in>set key. isWordChar c"
  shows "renderString data (pre @ ''{'' @ key @ ''}'' @ post)
     = renderString data pre
       @ (if truthy (dataLookup data key) then toString (dataLookup data key) else '''')
       @ renderString data post"
proof -
  have "renderString data (pre @ ''{'' @ key @ ''}'' @ post)
        = renderString data pre @ renderString data (CHR ''{'' # key @ CHR ''}'' # post)"
    unfolding renderString_def using replacePlaceholders_before_brace by simp
  also have "renderString data (CHR ''{'' # key @ CHR ''}'' # post)
        = toString (js_or (dataLookup data key) (JStr '''')) @ renderString data post"
    unfolding renderString_def using replacePlaceholders_placeholder [OF assms] by simp
  also have "toString (js_or (dataLookup data key) (JStr ''''))
        = (if truthy (dataLookup data key) then toString (dataLookup data key) else '''')"
    by (simp add: js_or_def)
  finally show ?thesis .
qed

lemma dataLookup_own: "data key = Some v \<Longrightarrow> dataLookup data key = v"
  by (simp add: dataLookup_def)

lemma dataLookup_absent:
  "data key = None \<Longrightarrow> \<not> inheritedName key \<Longrightarrow> dataLookup data key = JUndefined"
  by (simp add: dataLookup_def objectPrototype_def inheritedName_def)

text \<open>
  Claim C6, as the code has it. \<open>processTemplate\<close> on a string returns the rendered
  string. Every occurrence \<open>{key}\<close> of a non-empty key of word characters is replaced,
  whatever stands before and after it, by the stringified value of \<open>data[key]\<close> when that
  value is truthy, and by the empty string when it is falsy (\<open>undefined\<close>, \<open>null\<close>,
  \<open>false\<close>, \<open>0\<close>, the empty string). \<open>data[key]\<close> is the own property of \<open>data\<close> when it has
  one; a key that is absent from \<open>data\<close> and is not the name of a member of
  \<open>Object.prototype\<close> is replaced by the empty string. The text before and the text after
  are rendered the same way, so repeated and distinct placeholders are all replaced.
  A string with no placeholder is returned unchanged, and so is a template that is not a
  string (\<open>null\<close> and \<open>undefined\<close> included).
\<close>

theorem processTemplate_substitutes:
  assumes "key \<noteq> []" and "\<forall>c\<in>set key. isWordChar c"
  shows "processTemplate (JStr s) data = JStr (renderString data s)
    \<and> renderString data (pre @ ''{'' @ key @ ''}'' @ post)
        = renderString data pre
          @ (if truthy (dataLookup data key) then toString (dataLookup data key) else '''')
          @ renderString data post
    \<and> (\<forall>value. data key = Some value \<longrightarrow> dataLookup data key = value)
    \<and> (data key = None \<and> \<not> inheritedName key \<longrightarrow>
          renderString data (pre @ ''{'' @ key @ ''}'' @ post)
            = renderString data pre @ renderString data post)
    \<and> (\<not> hasPlaceholder s \<longrightarrow> renderString data s = s)
    \<and> ((\<forall>t. v \<noteq> JStr t) \<longrightarrow> processTemplate v data = v)"
proof -
  have a: "processTemplate (JStr s) data = JStr (renderString data s)"
    by (simp add: processTemplate_def)
  note b = renderString_placeholder [OF assms, of data pre post]
  have own: "\<forall>value. data key = Some value \<longrightarrow> dataLookup data key = value"
    by (simp add: dataLookup_own)
  have absent: "data key = None \<and> \<not> inheritedName key \<longrightarrow>
          renderString data (pre @ ''{'' @ key @ ''}'' @ post)
            = renderString data pre @ renderString data post"
  proof
    assume "data key = None \<and> \<not> inheritedName key"
    then have "dataLookup data key = JUndefined" by (simp add: dataLookup_absent)
    with b show "renderString data (pre @ ''{'' @ key @ ''}'' @ post)
            = renderString data pre @ renderString data post"
      by simp
  qed
  have c: "\<not> hasPlaceholder s \<longrightarrow> renderString data s = s"
    unfolding renderString_def using replacePlaceholders_none by blast
  have d: "(\<forall>t. v \<noteq> JStr t) \<longrightarrow> processTemplate v data = v"
    by (cases v) (simp_all add: processTemplate_def)
  show ?thesis
    using a b own absent c d by blast
qed

lemma isWordChar_first_name: "\<forall>c\<in>set ''first_name''. isWordChar c"
  by (simp add: isWordChar_def isAlnum_def isLowerAZ_def isUpperAZ_def isDigit09_def charCode_def)

lemma not_inherited_first_name: "\<not> inheritedName ''first_name''"
  by (simp add: inheritedName_def objectPrototypeFunctions_def)

theorem processTemplate_substitutes_witness:
  "processTemplate (JStr ''Hello {first_name}!'') [''first_name'' \<mapsto> JStr ''John''] = JStr ''Hello John!''
   \<and> processTemplate (JStr ''Hello {first_name}!'') Map.empty = JStr ''Hello !''
   \<and> processTemplate (JStr ''Hello World!'') [''first_name'' \<mapsto> JStr ''John''] = JStr ''Hello World!''
   \<and> processTemplate JNull [''first_name'' \<mapsto> JStr ''John''] = JNull"
proof -
  let ?d = "[''first_name'' \<mapsto> JStr ''John''] :: jsobj"
  have k: "''first_name'' \<noteq> []" by simp
  have np: "\<not> hasPlaceholder ''Hello ''" "\<not> hasPlaceholder ''!''" "\<not> hasPlaceholder ''Hello World!''"
    using hasPlaceholder_brace by fastforce+
  note t1 = processTemplate_substitutes [OF k isWordChar_first_name, of "''Hello ''" _ "''Hello ''" "''!''" JNull]
  note t2 = processTemplate_substitutes [OF k isWordChar_first_name, of "''!''" _ "''Hello ''" "''!''" JNull]
  note t3 = processTemplate_substitutes [OF k isWordChar_first_name, of "''Hello {first_name}!''" _ "''Hello ''" "''!''" JNull]
  note t4 = processTemplate_substitutes [OF k isWordChar_first_name, of "''Hello World!''" _ "''Hello ''" "''!''" JNull]
  have pre: "renderString d ''Hello '' = ''Hello ''" and post: "renderString d ''!'' = ''!''" for d
    using t1 [of d] t2 [of d] np by simp_all
  have own: "dataLookup ?d ''first_name'' = JStr ''John''"
    using t3 [of ?d] by simp
  have "renderString ?d ''Hello {first_name}!'' = ''Hello John!''"
    using t3 [of ?d] pre [of ?d] post [of ?d] own by simp
  moreover have "renderString Map.empty ''Hello {first_name}!'' = ''Hello !''"
  proof -
    have "Map.empty ''first_name'' = None \<and> \<not> inheritedName ''first_name'' \<longrightarrow>
        renderString Map.empty (''Hello '' @ ''{'' @ ''first_name'' @ ''}'' @ ''!'')
          = renderString Map.empty ''Hello '' @ renderString Map.empty ''!''"
      using t3 [of Map.empty] by blast
    then show ?thesis
      using not_inherited_first_name pre [of Map.empty] post [of Map.empty] by simp
  qed
  moreover have "renderString ?d ''Hello World!'' = ''Hello World!''"
    using t4 [of ?d] np by simp
  moreover have "processTemplate JNull ?d = JNull"
    using t4 [of ?d] by simp
  ultimately show ?thesis
    using t3 [of ?d] t3 [of Map.empty] t4 [of ?d] by simp
qed

text \<open>
  Claim C6 as the specification words it (the empty string exactly when the identifier is
  absent, the stringified value otherwise) fails on a key that is present with a falsy
  value: \<open>{n: 0}\<close> has \<open>n\<close>, whose string is \<open>0\<close>, and the placeholder is replaced by
  the empty string.
\<close>

theorem processTemplate_falsy_counterexample:
  "[''n'' \<mapsto> JNum False ''0''] ''n'' = Some (JNum False ''0'') \<and> toString (JNum False ''0'') = ''0''
   \<and> processTemplate (JStr ''Count: {n}'') [''n'' \<mapsto> JNum False ''0''] = JStr ''Count: ''"
  by code_simp

text \<open>
  It fails in the other direction too: a key that is absent from \<open>data\<close> but names a member
  of \<open>Object.prototype\<close> is replaced by the string of that member.
\<close>

lemma processTemplate_inherited_test:
  "processTemplate (JStr ''x{constructor}y'') Map.empty = JStr ''xfunction Object() { [native code] }y''"
  "processTemplate (JStr ''x{toString}y'') Map.empty = JStr ''xfunction toString() { [native code] }y''"
  "processTemplate (JStr ''x{__proto__}y'') Map.empty = JStr ''x[object Object]y''"
  by code_simp+

text \<open>The repository's own test of the URL encoding, on the model.\<close>

lemma encodeURIComponent_test: "encodeURIComponent ''user+tag@example.com'' = ''user%2Btag%40example.com''"
  by code_simp

text \<open>
  Claim C9. For every template without an \<open>html\<close> field, every subscriber and every token,
  the object \<open>processTemplateForSubscriber\<close> returns has no \<open>html\<close> key: its keys are
  exactly \<open>subject\<close> and \<open>text\<close>, each holding the template's field rendered with the
  full template data.
\<close>

theorem processTemplateForSubscriber_omits_html:
  assumes "template ''html'' = None"
  shows "processTemplateForSubscriber template subscriber token ''html'' = None
    \<and> dom (processTemplateForSubscriber template subscriber token) = {''subject'', ''text''}
    \<and> processTemplateForSubscriber template subscriber token ''subject''
        = Some (processTemplate (js_get template ''subject'') (fullTemplateData template subscriber token))
    \<and> processTemplateForSubscriber template subscriber token ''text''
        = Some (processTemplate (js_get template ''text'') (fullTemplateData template subscriber token))"
proof -
  have "\<not> truthy (js_get template ''html'')"
    using assms by (simp add: js_get_def)
  then have "processTemplateForSubscriber template subscriber token
      = [''subject'' \<mapsto> processTemplate (js_get template ''subject'') (fullTemplateData template subscriber token),
         ''text'' \<mapsto> processTemplate (js_get template ''text'') (fullTemplateData template subscriber token)]"
    by (simp add: processTemplateForSubscriber_def Let_def)
  then show ?thesis by auto
qed

theorem processTemplateForSubscriber_omits_html_witness:
  "processTemplateForSubscriber
     [''subject'' \<mapsto> JStr ''Welcome {first_name}!'', ''text'' \<mapsto> JStr ''Hello {first_name}'',
      ''confirmationUrl'' \<mapsto> JStr ''https://example.com/confirm?token={confirmation_token}'']
     [''email'' \<mapsto> JStr ''test@example.com'', ''first_name'' \<mapsto> JStr ''Test'']
     (JStr ''token123'') ''html'' = None
   \<and> processTemplateForSubscriber
     [''subject'' \<mapsto> JStr ''Welcome {first_name}!'', ''text'' \<mapsto> JStr ''Hello {first_name}'',
      ''confirmationUrl'' \<mapsto> JStr ''https://example.com/confirm?token={confirmation_token}'']
     [''email'' \<mapsto> JStr ''test@example.com'', ''first_name'' \<mapsto> JStr ''Test'']
     (JStr ''token123'') ''subject'' = Some (JStr ''Welcome Test!'')
   \<and> processTemplateForSubscriber
     [''subject'' \<mapsto> JStr ''Welcome {first_name}!'', ''text'' \<mapsto> JStr ''Hello {first_name}'',
      ''confirmationUrl'' \<mapsto> JStr ''https://example.com/confirm?token={confirmation_token}'']
     [''email'' \<mapsto> JStr ''test@example.com'', ''first_name'' \<mapsto> JStr ''Test'']
     (JStr ''token123'') ''text'' = Some (JStr ''Hello Test'')"
proof -
  let ?t = "[''subject'' \<mapsto> JStr ''Welcome {first_name}!'', ''text'' \<mapsto> JStr ''Hello {first_name}'',
      ''confirmationUrl'' \<mapsto> JStr ''https://example.com/confirm?token={confirmation_token}''] :: jsobj"
  let ?s = "[''email'' \<mapsto> JStr ''test@example.com'', ''first_name'' \<mapsto> JStr ''Test''] :: jsobj"
  have h: "?t ''html'' = None" by simp
  have s: "processTemplate (js_get ?t ''subject'') (fullTemplateData ?t ?s (JStr ''token123''))
           = JStr ''Welcome Test!''"
    by code_simp
  have t: "processTemplate (js_get ?t ''text'') (fullTemplateData ?t ?s (JStr ''token123''))
           = JStr ''Hello Test''"
    by code_simp
  show ?thesis
    using processTemplateForSubscriber_omits_html [of ?t ?s "JStr ''token123''"] h
    unfolding s t by blast
qed

text \<open>
  With an \<open>html\<close> field the key is present, and the confirmation URL carries the
  percent-encoded address while \<open>{email}\<close> elsewhere is the raw one.
\<close>

lemma processTemplateForSubscriber_url_test:
  "processTemplateForSubscriber
     [''subject'' \<mapsto> JStr ''Hi'', ''text'' \<mapsto> JStr ''{confirmation_url}'',
      ''html'' \<mapsto> JStr ''<a href={confirmation_url}>{email}</a>'',
      ''confirmationUrl'' \<mapsto> JStr ''https://example.com/confirm?token={confirmation_token}&email={email}'']
     [''email'' \<mapsto> JStr ''user+tag@example.com'']
     (JStr ''token123'') ''html''
   = Some (JStr ''<a href=https://example.com/confirm?token=token123&email=user%2Btag%40example.com>user+tag@example.com</a>'')"
  by code_simp

section \<open>Properties of the confirmation tokens\<close>

lemma charCode_char_of: "n < 256 \<Longrightarrow> charCode (char_of n) = n"
  by (simp add: charCode_def)

lemma isSpace_lowerChar: "isSpace (lowerChar c) = isSpace c"
proof (cases "isUpperAZ c \<or> (192 \<le> charCode c \<and> charCode c \<le> 222 \<and> charCode c \<noteq> 215)")
  case True
  then have r: "(65 \<le> charCode c \<and> charCode c \<le> 90) \<or> (192 \<le> charCode c \<and> charCode c \<le> 222)"
    by (auto simp: isUpperAZ_def)
  then have "charCode c + 32 < 256" by auto
  then have "charCode (lowerChar c) = charCode c + 32"
    using True by (simp add: lowerChar_def charCode_char_of)
  then show ?thesis
    using r unfolding isSpace_def by auto
next
  case False
  then have "lowerChar c = c"
    unfolding lowerChar_def by (rule if_not_P)
  then show ?thesis by simp
qed

lemma dropWhile_isSpace_toLowerCase:
  "dropWhile isSpace (toLowerCase s) = toLowerCase (dropWhile isSpace s)"
  by (induction s) (simp_all add: toLowerCase_def isSpace_lowerChar)

lemma trim_toLowerCase: "trim (toLowerCase s) = toLowerCase (trim s)"
proof -
  have "rev (toLowerCase s) = toLowerCase (rev s)" for s
    by (simp add: toLowerCase_def rev_map)
  then show ?thesis
    by (simp add: trim_def dropWhile_isSpace_toLowerCase)
qed

lemma lowerChar_idem: "lowerChar (lowerChar c) = lowerChar c"
proof (cases "isUpperAZ c \<or> (192 \<le> charCode c \<and> charCode c \<le> 222 \<and> charCode c \<noteq> 215)")
  case True
  then have r: "(65 \<le> charCode c \<and> charCode c \<le> 90) \<or> (192 \<le> charCode c \<and> charCode c \<le> 222)"
    by (auto simp: isUpperAZ_def)
  then have "charCode c + 32 < 256" by auto
  then have "charCode (lowerChar c) = charCode c + 32"
    using True by (simp add: lowerChar_def charCode_char_of)
  then have "\<not> (isUpperAZ (lowerChar c)
      \<or> (192 \<le> charCode (lowerChar c) \<and> charCode (lowerChar c) \<le> 222 \<and> charCode (lowerChar c) \<noteq> 215))"
    using r by (auto simp: isUpperAZ_def)
  then show ?thesis
    unfolding lowerChar_def [of "lowerChar c"] by (rule if_not_P)
next
  case False
  then have "lowerChar c = c"
    unfolding lowerChar_def by (rule if_not_P)
  then show ?thesis by simp
qed

lemma toLowerCase_idem: "toLowerCase (toLowerCase s) = toLowerCase s"
  by (simp add: toLowerCase_def lowerChar_idem)

lemma last_dropWhile: "dropWhile P xs \<noteq> [] \<Longrightarrow> last (dropWhile P xs) = last xs"
  by (induction xs) auto

lemma dropWhile_rev_dropWhile:
  "dropWhile P (rev (dropWhile P (rev (dropWhile P s)))) = rev (dropWhile P (rev (dropWhile P s)))"
proof (cases "dropWhile P (rev (dropWhile P s)) = []")
  case True
  show ?thesis unfolding True by simp
next
  case False
  let ?d = "dropWhile P s" and ?e = "dropWhile P (rev (dropWhile P s))"
  have d: "?d \<noteq> []"
  proof
    assume e: "?d = []"
    have "?e = []" unfolding e by simp
    with False show False by contradiction
  qed
  then have "\<not> P (hd ?d)" by (rule hd_dropWhile)
  moreover have "last ?e = last (rev ?d)" using False by (rule last_dropWhile)
  moreover have "last (rev ?d) = hd ?d" using d by (simp add: last_rev)
  moreover have "hd (rev ?e) = last ?e" using False by (simp add: hd_rev)
  ultimately have "\<not> P (hd (rev ?e))" by simp
  moreover have "rev ?e \<noteq> []" using False by simp
  ultimately show ?thesis by (cases "rev ?e") simp_all
qed

lemma trim_idem: "trim (trim s) = trim s"
proof -
  let ?t = "dropWhile isSpace (rev (dropWhile isSpace s))"
  have 1: "dropWhile isSpace (rev ?t) = rev ?t"
    by (rule dropWhile_rev_dropWhile)
  have 2: "dropWhile isSpace ?t = ?t"
    by (simp add: dropWhile_idem)
  show ?thesis
    by (simp add: trim_def 1 2)
qed

lemma toLowerCase_Nil: "toLowerCase s = [] \<longleftrightarrow> s = []"
  by (simp add: toLowerCase_def)

lemma generateTokenForSubscriber_string:
  assumes "subscriber ''email'' = Some (JStr email)" and "email \<noteq> []"
  shows "generateTokenForSubscriber env subscriber
        = Inr (take 32 (hmacHex (SECRET_KEY env) (toLowerCase (trim email))))"
  using assms by (simp add: generateTokenForSubscriber_def js_get_def Let_def trim_toLowerCase)

lemma generateTokenForSubscriber_falsy:
  "\<not> truthy (js_get subscriber ''email'')
    \<Longrightarrow> generateTokenForSubscriber env subscriber = Inl (Error ''Subscriber must have an email address'')"
  by (simp add: generateTokenForSubscriber_def)

text \<open>
  Claim C7, as the code has it. For every two subscribers whose addresses are strings that
  become equal after trimming and lower-casing, and are not empty then,
  \<open>generateTokenForSubscriber\<close> returns a token for both, and the same one: the first 32
  hexadecimal digits of the HMAC of the normalised address. A subscriber whose address is
  missing or falsy, the empty string included, gets no token: the call fails with the error
  \<open>Subscriber must have an email address\<close>. The function is a function of the secret and
  the subscriber, so two calls on the same subscriber give the same result. Nothing is said
  of an address of white space only.
\<close>

theorem generateTokenForSubscriber_normalises:
  assumes "subscriber1 ''email'' = Some (JStr email1)"
    and "subscriber2 ''email'' = Some (JStr email2)"
    and "toLowerCase (trim email1) = toLowerCase (trim email2)"
    and "toLowerCase (trim email1) \<noteq> []"
  shows "generateTokenForSubscriber env subscriber1 = generateTokenForSubscriber env subscriber2
    \<and> generateTokenForSubscriber env subscriber1
        = Inr (take 32 (hmacHex (SECRET_KEY env) (toLowerCase (trim email1))))
    \<and> (\<forall>subscriber. \<not> truthy (js_get subscriber ''email'') \<longrightarrow>
          generateTokenForSubscriber env subscriber
            = Inl (Error ''Subscriber must have an email address''))
    \<and> generateTokenForSubscriber env [''email'' \<mapsto> JStr '''']
        = Inl (Error ''Subscriber must have an email address'')
    \<and> generateTokenForSubscriber env Map.empty
        = Inl (Error ''Subscriber must have an email address'')"
proof -
  have "toLowerCase (trim email2) \<noteq> []"
    using assms(3,4) by simp
  then have "trim email1 \<noteq> []" "trim email2 \<noteq> []"
    using assms(4) by (simp_all add: toLowerCase_Nil)
  then have ne: "email1 \<noteq> []" "email2 \<noteq> []"
    by (auto simp: trim_def)
  have t1: "generateTokenForSubscriber env subscriber1
        = Inr (take 32 (hmacHex (SECRET_KEY env) (toLowerCase (trim email1))))"
    using assms(1) ne(1) by (rule generateTokenForSubscriber_string)
  have t2: "generateTokenForSubscriber env subscriber2
        = Inr (take 32 (hmacHex (SECRET_KEY env) (toLowerCase (trim email2))))"
    using assms(2) ne(2) by (rule generateTokenForSubscriber_string)
  have e1: "generateTokenForSubscriber env [''email'' \<mapsto> JStr '''']
        = Inl (Error ''Subscriber must have an email address'')"
    by (rule generateTokenForSubscriber_falsy) (simp add: js_get_def)
  have e2: "generateTokenForSubscriber env Map.empty
        = Inl (Error ''Subscriber must have an email address'')"
    by (rule generateTokenForSubscriber_falsy) (simp add: js_get_def)
  show ?thesis
    using t1 t2 assms(3) e1 e2 generateTokenForSubscriber_falsy by simp
qed

theorem generateTokenForSubscriber_normalises_witness:
  "generateTokenForSubscriber None [''email'' \<mapsto> JStr '' Test@Example.com '']
     = generateTokenForSubscriber None [''email'' \<mapsto> JStr ''test@example.com'']
   \<and> generateTokenForSubscriber None [''email'' \<mapsto> JStr '' Test@Example.com '']
     = Inr (take 32 (hmacHex (SECRET_KEY None) ''test@example.com''))
   \<and> generateTokenForSubscriber None [''email'' \<mapsto> JStr '''']
     = Inl (Error ''Subscriber must have an email address'')
   \<and> generateTokenForSubscriber None [''email'' \<mapsto> JNull]
     = Inl (Error ''Subscriber must have an email address'')"
proof -
  have n: "toLowerCase (trim '' Test@Example.com '') = ''test@example.com''"
    "toLowerCase (trim ''test@example.com'') = ''test@example.com''"
    by code_simp+
  have f: "\<not> truthy (js_get [''email'' \<mapsto> JNull] ''email'')"
    by (simp add: js_get_def)
  show ?thesis
    using generateTokenForSubscriber_normalises
      [of "[''email'' \<mapsto> JStr '' Test@Example.com '']" "'' Test@Example.com ''"
          "[''email'' \<mapsto> JStr ''test@example.com'']" "''test@example.com''" None] n f
    by auto
qed

text \<open>
  Claim C7 as the specification words it, for every pair of strings, fails on the empty
  address: the empty string and a string of one space are equal after trimming and
  lower-casing, the first is rejected by the guard \<open>!subscriber.email\<close> and the second gets
  a token, the one of the empty normalised address.
\<close>

theorem generateTokenForSubscriber_empty_counterexample:
  "toLowerCase (trim '''') = toLowerCase (trim '' '')
   \<and> generateTokenForSubscriber None [''email'' \<mapsto> JStr '''']
       = Inl (Error ''Subscriber must have an email address'')
   \<and> generateTokenForSubscriber None [''email'' \<mapsto> JStr '' '']
       = Inr (take 32 (hmacHex (SECRET_KEY None) ''''))
   \<and> generateTokenForSubscriber None [''email'' \<mapsto> JStr '''']
       \<noteq> generateTokenForSubscriber None [''email'' \<mapsto> JStr '' '']"
proof -
  have n: "toLowerCase (trim '''') = toLowerCase (trim '' '')" "trim (toLowerCase '' '') = ''''"
    by code_simp+
  have a: "generateTokenForSubscriber None [''email'' \<mapsto> JStr '''']
      = Inl (Error ''Subscriber must have an email address'')"
    by (simp add: generateTokenForSubscriber_def js_get_def)
  have b: "generateTokenForSubscriber None [''email'' \<mapsto> JStr '' '']
      = Inr (take 32 (hmacHex (SECRET_KEY None) ''''))"
    using n(2) by (simp add: generateTokenForSubscriber_def js_get_def Let_def)
  show ?thesis
    using n(1) a b by simp
qed

text \<open>
  The token of an address of white space only is one that \<open>validateConfirmationToken\<close>
  never accepts: it normalises the address before the guard, which then rejects it.
\<close>

lemma validateConfirmationToken_blank:
  "trim (toLowerCase email) = [] \<Longrightarrow> validateConfirmationToken env token email = False"
  by (simp add: validateConfirmationToken_def generateTokenForSubscriber_def js_get_def)

lemma validateConfirmationToken_accepts:
  assumes "subscriber ''email'' = Some (JStr email)" and "toLowerCase (trim email) \<noteq> []"
    and "generateTokenForSubscriber env subscriber = Inr token" and "token \<noteq> []"
  shows "validateConfirmationToken env token email"
proof -
  have t: "trim email \<noteq> []" using assms(2) by (simp add: toLowerCase_Nil)
  then have ne: "email \<noteq> []" by (auto simp: trim_def)
  have n: "trim (toLowerCase email) \<noteq> []" using assms(2) by (simp add: trim_toLowerCase)
  have idem: "trim (toLowerCase (trim (toLowerCase email))) = trim (toLowerCase email)"
    by (simp add: trim_toLowerCase toLowerCase_idem trim_idem)
  have "generateTokenForSubscriber env [''email'' \<mapsto> JStr (trim (toLowerCase email))]
      = Inr (take 32 (hmacHex (SECRET_KEY env) (trim (toLowerCase email))))"
    using n idem by (simp add: generateTokenForSubscriber_def js_get_def Let_def)
  moreover have "generateTokenForSubscriber env subscriber
      = Inr (take 32 (hmacHex (SECRET_KEY env) (trim (toLowerCase email))))"
    using generateTokenForSubscriber_string [of subscriber email env] assms(1) ne
    by (simp add: trim_toLowerCase)
  ultimately show ?thesis
    using assms(3,4) ne by (simp add: validateConfirmationToken_def Let_def)
qed
section \<open>Properties of the bulk dispatcher\<close>

lemma sendLoop_step:
  assumes "i < length subscribers"
    and "processedEmailFor emailTemplate (subscribers ! i) = Inr processedEmail"
  shows "sendLoop client subscribers emailTemplate d i results trace w
     = sendLoop client subscribers emailTemplate d (i + 1)
         (results @ [bulkResult (subscribers ! i) (fst (sendEmail client processedEmail w))])
         (trace @ Sent processedEmail
            # (if int i < int (length subscribers) - 1 then [Paused d] else []))
         (snd (sendEmail client processedEmail w))"
  using assms by (subst sendLoop.simps) simp

text \<open>The loop computes the recursion on the list of the subscribers that are left.\<close>

lemma sendLoop_dispatch:
  "i \<le> length subscribers \<Longrightarrow>
   sendLoop client subscribers emailTemplate d i results trace w
     = (case dispatch client emailTemplate d (drop i subscribers) w of
          Inl e \<Rightarrow> Inl e
        | Inr (results', trace', w') \<Rightarrow> Inr (results @ results', trace @ trace', w'))"
proof (induction client subscribers emailTemplate d i results trace w rule: sendLoop.induct)
  case (1 client subscribers emailTemplate d i results trace w)
  show ?case
  proof (cases "i < length subscribers")
    case False
    with "1.prems" have "drop i subscribers = []" by simp
    with False show ?thesis
      by (subst sendLoop.simps) simp
  next
    case True
    then have dr: "drop i subscribers = subscribers ! i # drop (i + 1) subscribers"
      by (simp add: Cons_nth_drop_Suc)
    have pause: "(int i < int (length subscribers) - 1) = (drop (i + 1) subscribers \<noteq> [])"
      by auto
    show ?thesis
    proof (cases "processedEmailFor emailTemplate (subscribers ! i)")
      case (Inl e)
      with True show ?thesis
        by (subst sendLoop.simps) (simp add: dr)
    next
      case (Inr processedEmail)
      have le: "i + 1 \<le> length subscribers" using True by simp
      let ?w1 = "snd (sendEmail client processedEmail w)"
      let ?r = "bulkResult (subscribers ! i) (fst (sendEmail client processedEmail w))"
      let ?p = "if int i < int (length subscribers) - 1 then [Paused d] else []"
      have "sendLoop client subscribers emailTemplate d i results trace w
            = sendLoop client subscribers emailTemplate d (i + 1) (results @ [?r])
                (trace @ Sent processedEmail # ?p) ?w1"
        by (rule sendLoop_step [OF True Inr])
      also have "\<dots> = (case dispatch client emailTemplate d (drop (i + 1) subscribers) ?w1 of
                Inl e \<Rightarrow> Inl e
              | Inr (results', trace', w') \<Rightarrow>
                  Inr ((results @ [?r]) @ results', (trace @ Sent processedEmail # ?p) @ trace', w'))"
        by (rule "1.IH" [OF True Inr le])
      also have "\<dots> = (case dispatch client emailTemplate d (drop i subscribers) w of
                Inl e \<Rightarrow> Inl e
              | Inr (results', trace', w') \<Rightarrow> Inr (results @ results', trace @ trace', w'))"
        unfolding dr pause
        by (cases "dispatch client emailTemplate d (drop (i + 1) subscribers) ?w1")
           (auto simp: Inr)
      finally show ?thesis .
    qed
  qed
qed

lemma processTemplate_mailgun_field:
  "templateField v \<Longrightarrow> \<exists>r. processTemplate_mailgun v data = Inr r"
  by (cases v) (simp_all add: templateField_def processTemplate_mailgun_def)

lemma processedEmailFor_wellTyped:
  assumes "wellTypedTemplate emailTemplate"
  shows "\<exists>processedEmail. processedEmailFor emailTemplate subscriber = Inr processedEmail"
proof -
  from assms have f: "templateField (js_get emailTemplate ''subject'')"
    "templateField (js_get emailTemplate ''text'')" "templateField (js_get emailTemplate ''html'')"
    by (simp_all add: wellTypedTemplate_def)
  obtain a where a: "processTemplate_mailgun (js_get emailTemplate ''subject'') subscriber = Inr a"
    using processTemplate_mailgun_field [OF f(1)] by auto
  obtain b where b: "processTemplate_mailgun (js_get emailTemplate ''text'') subscriber = Inr b"
    using processTemplate_mailgun_field [OF f(2)] by auto
  obtain c where c: "processTemplate_mailgun (js_get emailTemplate ''html'') subscriber = Inr c"
    using processTemplate_mailgun_field [OF f(3)] by auto
  show ?thesis
    unfolding processedEmailFor_def a b c by (simp add: Let_def)
qed

lemma dispatch_total:
  assumes "wellTypedTemplate emailTemplate"
  shows "\<exists>results trace w'. dispatch client emailTemplate d subscribers w = Inr (results, trace, w')"
proof (induction subscribers arbitrary: w)
  case Nil
  show ?case by simp
next
  case (Cons subscriber rest)
  from processedEmailFor_wellTyped [OF assms] obtain pe where
    pe: "processedEmailFor emailTemplate subscriber = Inr pe" by blast
  from Cons.IH [of "snd (sendEmail client pe w)"] obtain results trace w' where
    "dispatch client emailTemplate d rest (snd (sendEmail client pe w)) = Inr (results, trace, w')"
    by blast
  with pe show ?case by simp
qed

lemma dispatch_Cons:
  assumes "dispatch client emailTemplate d (subscriber # rest) w = Inr (results, trace, w')"
  obtains processedEmail results1 trace1 where
    "processedEmailFor emailTemplate subscriber = Inr processedEmail"
    "dispatch client emailTemplate d rest (snd (sendEmail client processedEmail w))
       = Inr (results1, trace1, w')"
    "results = bulkResult subscriber (fst (sendEmail client processedEmail w)) # results1"
    "trace = Sent processedEmail # (if rest \<noteq> [] then [Paused d] else []) @ trace1"
proof (cases "processedEmailFor emailTemplate subscriber")
  case (Inl e)
  with assms show ?thesis by simp
next
  case (Inr pe)
  show ?thesis
  proof (cases "dispatch client emailTemplate d rest (snd (sendEmail client pe w))")
    case (Inl e)
    with assms Inr show ?thesis by simp
  next
    case inner: (Inr triple)
    obtain results1 trace1 w1 where tr: "triple = (results1, trace1, w1)"
      by (cases triple) auto
    from assms Inr inner tr have "w1 = w'"
      and "results = bulkResult subscriber (fst (sendEmail client pe w)) # results1"
      and "trace = Sent pe # (if rest \<noteq> [] then [Paused d] else []) @ trace1"
      by simp_all
    with Inr inner tr that show ?thesis by simp
  qed
qed

lemma dispatch_length:
  "dispatch client emailTemplate d subscribers w = Inr (results, trace, w')
   \<Longrightarrow> length results = length subscribers"
proof (induction subscribers arbitrary: w results trace)
  case Nil
  then show ?case by simp
next
  case (Cons subscriber rest)
  from Cons.prems obtain pe results1 trace1 where
    "dispatch client emailTemplate d rest (snd (sendEmail client pe w)) = Inr (results1, trace1, w')"
    "results = bulkResult subscriber (fst (sendEmail client pe w)) # results1"
    by (rule dispatch_Cons)
  with Cons.IH show ?case by simp
qed

lemma dispatch_item:
  "dispatch client emailTemplate d subscribers w = Inr (results, trace, w')
   \<Longrightarrow> i < length subscribers
   \<Longrightarrow> \<exists>processedEmail.
          processedEmailFor emailTemplate (subscribers ! i) = Inr processedEmail
          \<and> results ! i = bulkResult (subscribers ! i)
               (fst (sendEmail client processedEmail
                         (worldBefore client emailTemplate subscribers w i)))"
proof (induction subscribers arbitrary: w results trace i)
  case Nil
  then show ?case by simp
next
  case (Cons subscriber rest)
  from Cons.prems(1) obtain pe results1 trace1 where
    pe: "processedEmailFor emailTemplate subscriber = Inr pe" and
    d1: "dispatch client emailTemplate d rest (snd (sendEmail client pe w)) = Inr (results1, trace1, w')" and
    r: "results = bulkResult subscriber (fst (sendEmail client pe w)) # results1"
    by (rule dispatch_Cons)
  show ?case
  proof (cases i)
    case 0
    then show ?thesis using pe r by simp
  next
    case (Suc j)
    with Cons.prems(2) have j: "j < length rest" by simp
    from Cons.IH [OF d1 j] obtain pj where
      "processedEmailFor emailTemplate (rest ! j) = Inr pj"
      "results1 ! j = bulkResult (rest ! j)
               (fst (sendEmail client pj
                    (worldBefore client emailTemplate rest (snd (sendEmail client pe w)) j)))"
      by auto
    then show ?thesis using Suc pe r by simp
  qed
qed

lemma dispatch_trace_shape:
  "dispatch client emailTemplate d subscribers w = Inr (results, trace, w')
   \<Longrightarrow> length trace = 2 * length subscribers - 1
       \<and> length (filter isPaused trace) = length subscribers - 1
       \<and> length (filter (\<lambda>e. \<not> isPaused e) trace) = length subscribers"
proof (induction subscribers arbitrary: w results trace)
  case Nil
  then show ?case by simp
next
  case (Cons subscriber rest)
  from Cons.prems obtain pe results1 trace1 where
    d1: "dispatch client emailTemplate d rest (snd (sendEmail client pe w)) = Inr (results1, trace1, w')" and
    t: "trace = Sent pe # (if rest \<noteq> [] then [Paused d] else []) @ trace1"
    by (rule dispatch_Cons)
  note IH = Cons.IH [OF d1]
  show ?case
  proof (cases "rest = []")
    case True
    with d1 have "trace1 = []" by simp
    with True t show ?thesis by simp
  next
    case False
    then have "0 < length rest" by simp
    with IH t False show ?thesis by simp
  qed
qed

lemma dispatch_trace_sent:
  "dispatch client emailTemplate d subscribers w = Inr (results, trace, w')
   \<Longrightarrow> i < length subscribers
   \<Longrightarrow> \<exists>processedEmail.
          processedEmailFor emailTemplate (subscribers ! i) = Inr processedEmail
          \<and> trace ! (2 * i) = Sent processedEmail"
proof (induction subscribers arbitrary: w results trace i)
  case Nil
  then show ?case by simp
next
  case (Cons subscriber rest)
  from Cons.prems(1) obtain pe results1 trace1 where
    pe: "processedEmailFor emailTemplate subscriber = Inr pe" and
    d1: "dispatch client emailTemplate d rest (snd (sendEmail client pe w)) = Inr (results1, trace1, w')" and
    t: "trace = Sent pe # (if rest \<noteq> [] then [Paused d] else []) @ trace1"
    by (rule dispatch_Cons)
  show ?case
  proof (cases i)
    case 0
    then show ?thesis using pe t by simp
  next
    case (Suc j)
    with Cons.prems(2) have j: "j < length rest" by simp
    then have ne: "rest \<noteq> []" by auto
    from Cons.IH [OF d1 j] obtain pj where
      "processedEmailFor emailTemplate (rest ! j) = Inr pj" "trace1 ! (2 * j) = Sent pj"
      by auto
    then show ?thesis using Suc t ne by simp
  qed
qed

lemma dispatch_trace_paused:
  "dispatch client emailTemplate d subscribers w = Inr (results, trace, w')
   \<Longrightarrow> i + 1 < length subscribers
   \<Longrightarrow> trace ! (2 * i + 1) = Paused d"
proof (induction subscribers arbitrary: w results trace i)
  case Nil
  then show ?case by simp
next
  case (Cons subscriber rest)
  from Cons.prems(1) obtain pe results1 trace1 where
    d1: "dispatch client emailTemplate d rest (snd (sendEmail client pe w)) = Inr (results1, trace1, w')" and
    t: "trace = Sent pe # (if rest \<noteq> [] then [Paused d] else []) @ trace1"
    by (rule dispatch_Cons)
  from Cons.prems(2) have ne: "rest \<noteq> []" by auto
  show ?case
  proof (cases i)
    case 0
    then show ?thesis using t ne by simp
  next
    case (Suc j)
    with Cons.prems(2) have j: "j + 1 < length rest" by simp
    from Cons.IH [OF d1 j] have "trace1 ! (2 * j + 1) = Paused d" .
    then show ?thesis using Suc t ne by simp
  qed
qed

lemma sendBulkEmails_dispatch:
  "sendBulkEmails client subscribers emailTemplate options w
     = dispatch client emailTemplate
         (1000 / (case rateLimit options of None \<Rightarrow> 10 | Some r \<Rightarrow> r)) subscribers w"
proof -
  let ?d = "1000 / (case rateLimit options of None \<Rightarrow> 10 | Some r \<Rightarrow> r)"
  have "sendBulkEmails client subscribers emailTemplate options w
        = sendLoop client subscribers emailTemplate ?d 0 [] [] w"
    by (simp add: sendBulkEmails_def Let_def)
  also have "\<dots> = (case dispatch client emailTemplate ?d (drop 0 subscribers) w of
          Inl e \<Rightarrow> Inl e
        | Inr (results', trace', w') \<Rightarrow> Inr ([] @ results', [] @ trace', w'))"
    by (rule sendLoop_dispatch) simp
  also have "\<dots> = dispatch client emailTemplate ?d subscribers w"
    by (cases "dispatch client emailTemplate ?d subscribers w") auto
  finally show ?thesis .
qed

lemma sendEmail_outcome:
  "fst (sendEmail client emailData w)
     = (case sendOutcome client emailData w of
          Inl msg \<Rightarrow> [''success'' \<mapsto> JBool False, ''error'' \<mapsto> JStr msg]
        | Inr response \<Rightarrow> [''success'' \<mapsto> JBool True,
                           ''messageId'' \<mapsto> js_get response ''id'',
                           ''response'' \<mapsto> js_get response ''message''])"
proof (cases "validateEmailData emailData")
  case (Inl e)
  then show ?thesis by (simp add: sendEmail_def sendOutcome_def)
next
  case (Inr ok)
  obtain out w' where c: "messages_create client w (domain (config client))
      (messageDataFor client emailData) = (out, w')"
    by (cases "messages_create client w (domain (config client)) (messageDataFor client emailData)")
  show ?thesis
    using Inr c by (cases out) (simp_all add: sendEmail_def sendOutcome_def)
qed

lemma bulkResult_failure:
  "bulkResult subscriber [''success'' \<mapsto> JBool False, ''error'' \<mapsto> JStr msg]
     = [''email'' \<mapsto> js_get subscriber ''email'', ''success'' \<mapsto> JBool False, ''error'' \<mapsto> JStr msg]"
  by (simp add: bulkResult_def)

lemma bulkResult_success:
  "bulkResult subscriber [''success'' \<mapsto> JBool True, ''messageId'' \<mapsto> a, ''response'' \<mapsto> b]
     = [''email'' \<mapsto> js_get subscriber ''email'', ''success'' \<mapsto> JBool True,
        ''messageId'' \<mapsto> a, ''response'' \<mapsto> b]"
  by (simp add: bulkResult_def)

lemma bulkResult_email:
  "js_get (bulkResult subscriber (fst (sendEmail client emailData w))) ''email''
     = js_get subscriber ''email''"
  unfolding sendEmail_outcome
  by (cases "sendOutcome client emailData w")
     (simp_all add: bulkResult_failure bulkResult_success, simp_all add: js_get_def)

lemma dispatch_pause_delay:
  "dispatch client emailTemplate d subscribers w = Inr (results, trace, w')
   \<Longrightarrow> e \<in> set trace \<Longrightarrow> isPaused e \<Longrightarrow> e = Paused d"
proof (induction subscribers arbitrary: w results trace)
  case Nil
  then show ?case by simp
next
  case (Cons subscriber rest)
  from Cons.prems(1) obtain pe results1 trace1 where
    d1: "dispatch client emailTemplate d rest (snd (sendEmail client pe w)) = Inr (results1, trace1, w')" and
    t: "trace = Sent pe # (if rest \<noteq> [] then [Paused d] else []) @ trace1"
    by (rule dispatch_Cons)
  from Cons.prems(2) t have "e = Sent pe \<or> e = Paused d \<or> e \<in> set trace1"
    by (auto split: if_splits)
  then show ?case
    using Cons.prems(3) Cons.IH [OF d1] by auto
qed

text \<open>
  Claim C3. For a template whose \<open>subject\<close>, \<open>text\<close> and \<open>html\<close> are strings or absent, and
  every list of subscribers, \<open>sendBulkEmails\<close> returns, and returns one result for each
  subscriber, in input order: the result at index \<open>i\<close> carries the address of subscriber \<open>i\<close>,
  and every subscriber's email is handed to \<open>sendEmail\<close>, whatever happened to the others.
  When the send operation fails for subscriber \<open>i\<close> (a validation error, or a rejection by the
  provider in the state the earlier sends have left), that result is
  \<open>{email, success: false, error: message}\<close>; when the provider answers, it is
  \<open>{email, success: true, messageId, response}\<close>.
\<close>

theorem sendBulkEmails_isolates_failures:
  assumes "wellTypedTemplate emailTemplate"
  shows "\<exists>results trace w'.
      sendBulkEmails client subscribers emailTemplate options w = Inr (results, trace, w')
    \<and> length results = length subscribers
    \<and> length (filter (\<lambda>e. \<not> isPaused e) trace) = length subscribers
    \<and> (\<forall>i<length subscribers. \<exists>processedEmail.
          processedEmailFor emailTemplate (subscribers ! i) = Inr processedEmail
        \<and> trace ! (2 * i) = Sent processedEmail
        \<and> js_get (results ! i) ''email'' = js_get (subscribers ! i) ''email''
        \<and> (\<forall>msg. sendOutcome client processedEmail
                     (worldBefore client emailTemplate subscribers w i) = Inl msg
              \<longrightarrow> results ! i = [''email'' \<mapsto> js_get (subscribers ! i) ''email'',
                                ''success'' \<mapsto> JBool False, ''error'' \<mapsto> JStr msg])
        \<and> (\<forall>response. sendOutcome client processedEmail
                     (worldBefore client emailTemplate subscribers w i) = Inr response
              \<longrightarrow> results ! i = [''email'' \<mapsto> js_get (subscribers ! i) ''email'',
                                ''success'' \<mapsto> JBool True,
                                ''messageId'' \<mapsto> js_get response ''id'',
                                ''response'' \<mapsto> js_get response ''message'']))"
proof -
  let ?d = "1000 / (case rateLimit options of None \<Rightarrow> 10 | Some r \<Rightarrow> r)"
  from dispatch_total [OF assms, of client ?d subscribers w] obtain results trace w' where
    d: "dispatch client emailTemplate ?d subscribers w = Inr (results, trace, w')"
    by blast
  have run: "sendBulkEmails client subscribers emailTemplate options w = Inr (results, trace, w')"
    using d by (simp only: sendBulkEmails_dispatch)
  have len: "length results = length subscribers"
    using d by (rule dispatch_length)
  have sends: "length (filter (\<lambda>e. \<not> isPaused e) trace) = length subscribers"
    using dispatch_trace_shape [OF d] by simp
  have item: "\<exists>processedEmail.
          processedEmailFor emailTemplate (subscribers ! i) = Inr processedEmail
        \<and> trace ! (2 * i) = Sent processedEmail
        \<and> js_get (results ! i) ''email'' = js_get (subscribers ! i) ''email''
        \<and> (\<forall>msg. sendOutcome client processedEmail
                     (worldBefore client emailTemplate subscribers w i) = Inl msg
              \<longrightarrow> results ! i = [''email'' \<mapsto> js_get (subscribers ! i) ''email'',
                                ''success'' \<mapsto> JBool False, ''error'' \<mapsto> JStr msg])
        \<and> (\<forall>response. sendOutcome client processedEmail
                     (worldBefore client emailTemplate subscribers w i) = Inr response
              \<longrightarrow> results ! i = [''email'' \<mapsto> js_get (subscribers ! i) ''email'',
                                ''success'' \<mapsto> JBool True,
                                ''messageId'' \<mapsto> js_get response ''id'',
                                ''response'' \<mapsto> js_get response ''message''])"
    if i: "i < length subscribers" for i
  proof -
    let ?wi = "worldBefore client emailTemplate subscribers w i"
    from dispatch_item [OF d i] obtain pe where
      pe: "processedEmailFor emailTemplate (subscribers ! i) = Inr pe" and
      r: "results ! i = bulkResult (subscribers ! i) (fst (sendEmail client pe ?wi))"
      by blast
    from dispatch_trace_sent [OF d i] pe have s: "trace ! (2 * i) = Sent pe"
      by auto
    have e: "js_get (results ! i) ''email'' = js_get (subscribers ! i) ''email''"
      unfolding r by (rule bulkResult_email)
    have f: "results ! i = [''email'' \<mapsto> js_get (subscribers ! i) ''email'',
                                ''success'' \<mapsto> JBool False, ''error'' \<mapsto> JStr msg]"
      if "sendOutcome client pe ?wi = Inl msg" for msg
      unfolding r sendEmail_outcome that by (simp add: bulkResult_failure)
    have g: "results ! i = [''email'' \<mapsto> js_get (subscribers ! i) ''email'',
                                ''success'' \<mapsto> JBool True,
                                ''messageId'' \<mapsto> js_get response ''id'',
                                ''response'' \<mapsto> js_get response ''message'']"
      if "sendOutcome client pe ?wi = Inr response" for response
      unfolding r sendEmail_outcome that by (simp add: bulkResult_success)
    show ?thesis
      using pe s e f g by blast
  qed
  show ?thesis
    using run len sends item by blast
qed

text \<open>
  Claim C4. For a template as above, every non-empty list of \<open>n\<close> subscribers and every
  \<open>rateLimit > 0\<close>, the events of \<open>sendBulkEmails\<close> are the \<open>n\<close> sends with one pause between
  each two of them: \<open>2n - 1\<close> events, a send at every even position, a pause of
  \<open>1000 / rateLimit\<close> milliseconds at every odd one, so \<open>n - 1\<close> pauses, every pause of that
  length, and the last event is a send: no pause follows the final item. The model records
  the delay that is requested of the timer, as an exact rational.
\<close>

theorem sendBulkEmails_pauses:
  assumes "wellTypedTemplate emailTemplate" and "subscribers \<noteq> []"
    and "rateLimit options = Some r" and "0 < r"
  shows "\<exists>results trace w'.
      sendBulkEmails client subscribers emailTemplate options w = Inr (results, trace, w')
    \<and> length (filter isPaused trace) = length subscribers - 1
    \<and> (\<forall>e\<in>set trace. isPaused e \<longrightarrow> e = Paused (1000 / r))
    \<and> length trace = 2 * length subscribers - 1
    \<and> (\<forall>i<length subscribers. \<not> isPaused (trace ! (2 * i)))
    \<and> (\<forall>i. i + 1 < length subscribers \<longrightarrow> trace ! (2 * i + 1) = Paused (1000 / r))
    \<and> \<not> isPaused (last trace)"
proof -
  have dd: "1000 / (case rateLimit options of None \<Rightarrow> 10 | Some r \<Rightarrow> r) = 1000 / r"
    using assms(3) by simp
  from dispatch_total [OF assms(1), of client "1000 / r" subscribers w] obtain results trace w' where
    d: "dispatch client emailTemplate (1000 / r) subscribers w = Inr (results, trace, w')"
    by blast
  have run: "sendBulkEmails client subscribers emailTemplate options w = Inr (results, trace, w')"
    using d by (simp only: sendBulkEmails_dispatch dd)
  note shape = dispatch_trace_shape [OF d]
  have count: "length (filter isPaused trace) = length subscribers - 1"
    and len: "length trace = 2 * length subscribers - 1"
    using shape by simp_all
  have delay: "\<forall>e\<in>set trace. isPaused e \<longrightarrow> e = Paused (1000 / r)"
    using dispatch_pause_delay [OF d] by blast
  have sent: "\<not> isPaused (trace ! (2 * i))" if "i < length subscribers" for i
    using dispatch_trace_sent [OF d that] by auto
  have paused: "trace ! (2 * i + 1) = Paused (1000 / r)" if "i + 1 < length subscribers" for i
    using d that by (rule dispatch_trace_paused)
  have n: "0 < length subscribers" using assms(2) by simp
  then have "0 < length trace" using len by arith
  then have "trace \<noteq> []" by simp
  then have "last trace = trace ! (length trace - 1)"
    by (rule last_conv_nth)
  also have "length trace - 1 = 2 * (length subscribers - 1)"
    using len n by simp
  finally have "\<not> isPaused (last trace)"
    using sent [of "length subscribers - 1"] n by simp
  then show ?thesis
    using run count delay len sent paused by blast
qed

lemma wellTyped_exampleTemplate: "wellTypedTemplate exampleTemplate"
  by (simp add: wellTypedTemplate_def templateField_def exampleTemplate_def js_get_def)

lemma renderString_examples:
  "renderString [''email'' \<mapsto> JStr ''b@x.co''] ''Hi {first_name}'' = ''Hi ''"
  "renderString [''email'' \<mapsto> JStr ''b@x.co''] ''Please confirm'' = ''Please confirm''"
  by code_simp+

lemma validateEmail_b: "validateEmail (JStr ''b@x.co'')"
  by code_simp

theorem sendBulkEmails_isolates_failures_witness:
  "\<exists>results trace w'.
     sendBulkEmails exampleClient
       [[''email'' \<mapsto> JStr ''a@x.co''], [''email'' \<mapsto> JStr ''b@x.co''], [''email'' \<mapsto> JStr ''c@x.co'']]
       exampleTemplate \<lparr> rateLimit = Some 10, onProgress = None \<rparr> (0, 0) = Inr (results, trace, w')
     \<and> length results = 3
     \<and> results ! 1 = [''email'' \<mapsto> JStr ''b@x.co'', ''success'' \<mapsto> JBool False,
                       ''error'' \<mapsto> JStr ''Forbidden'']"
proof -
  let ?subs = "[[''email'' \<mapsto> JStr ''a@x.co''], [''email'' \<mapsto> JStr ''b@x.co''],
                [''email'' \<mapsto> JStr ''c@x.co'']] :: jsobj list"
  let ?opts = "\<lparr> rateLimit = Some 10, onProgress = None \<rparr> :: (nat \<times> nat) bulk_options"
  let ?pe = "[''to'' \<mapsto> JStr ''b@x.co'', ''subject'' \<mapsto> JStr ''Hi '',
              ''text'' \<mapsto> JStr ''Please confirm'', ''html'' \<mapsto> JUndefined] :: jsobj"
  have pe: "processedEmailFor exampleTemplate (?subs ! 1) = Inr ?pe"
    by (simp add: processedEmailFor_def processTemplate_mailgun_def exampleTemplate_def js_get_def
        renderString_examples Let_def)
  have v: "validateEmailData ?pe = Inr ()"
    by (simp add: validateEmailData_def js_get_def validateEmail_b)
  have out: "sendOutcome exampleClient ?pe wi = Inl ''Forbidden''" for wi
    by (simp add: sendOutcome_def v exampleClient_def exampleCreate_def messageDataFor_def
        js_get_def Let_def)
  from sendBulkEmails_isolates_failures [OF wellTyped_exampleTemplate, of exampleClient ?subs ?opts "(0, 0)"]
  obtain results trace w' where
    run: "sendBulkEmails exampleClient ?subs exampleTemplate ?opts (0, 0) = Inr (results, trace, w')"
    and len: "length results = length ?subs"
    and items: "\<forall>i<length ?subs. \<exists>processedEmail.
          processedEmailFor exampleTemplate (?subs ! i) = Inr processedEmail
        \<and> trace ! (2 * i) = Sent processedEmail
        \<and> js_get (results ! i) ''email'' = js_get (?subs ! i) ''email''
        \<and> (\<forall>msg. sendOutcome exampleClient processedEmail
                     (worldBefore exampleClient exampleTemplate ?subs (0, 0) i) = Inl msg
              \<longrightarrow> results ! i = [''email'' \<mapsto> js_get (?subs ! i) ''email'',
                                ''success'' \<mapsto> JBool False, ''error'' \<mapsto> JStr msg])
        \<and> (\<forall>response. sendOutcome exampleClient processedEmail
                     (worldBefore exampleClient exampleTemplate ?subs (0, 0) i) = Inr response
              \<longrightarrow> results ! i = [''email'' \<mapsto> js_get (?subs ! i) ''email'',
                                ''success'' \<mapsto> JBool True,
                                ''messageId'' \<mapsto> js_get response ''id'',
                                ''response'' \<mapsto> js_get response ''message''])"
    by blast
  have "(1::nat) < length ?subs" by simp
  with items obtain p where
    p: "processedEmailFor exampleTemplate (?subs ! 1) = Inr p"
    and f: "\<forall>msg. sendOutcome exampleClient p
                     (worldBefore exampleClient exampleTemplate ?subs (0, 0) 1) = Inl msg
              \<longrightarrow> results ! 1 = [''email'' \<mapsto> js_get (?subs ! 1) ''email'',
                                ''success'' \<mapsto> JBool False, ''error'' \<mapsto> JStr msg]"
    by blast
  from p pe have "p = ?pe" by simp
  with f out have "results ! 1 = [''email'' \<mapsto> js_get (?subs ! 1) ''email'',
                                ''success'' \<mapsto> JBool False, ''error'' \<mapsto> JStr ''Forbidden'']"
    by blast
  then have r1: "results ! 1 = [''email'' \<mapsto> JStr ''b@x.co'', ''success'' \<mapsto> JBool False,
                       ''error'' \<mapsto> JStr ''Forbidden'']"
    by (simp add: js_get_def)
  from len have "length results = 3" by simp
  with run r1 show ?thesis by blast
qed

theorem sendBulkEmails_pauses_witness:
  "\<exists>results trace w'.
     sendBulkEmails exampleClient
       [[''email'' \<mapsto> JStr ''a@x.co''], [''email'' \<mapsto> JStr ''b@x.co''], [''email'' \<mapsto> JStr ''c@x.co''],
        [''email'' \<mapsto> JStr ''d@x.co''], [''email'' \<mapsto> JStr ''e@x.co'']]
       exampleTemplate \<lparr> rateLimit = Some 10, onProgress = None \<rparr> (0, 0) = Inr (results, trace, w')
     \<and> length (filter isPaused trace) = 4
     \<and> length trace = 9
     \<and> trace ! 1 = Paused 100 \<and> trace ! 3 = Paused 100 \<and> trace ! 5 = Paused 100
     \<and> trace ! 7 = Paused 100
     \<and> \<not> isPaused (last trace)"
proof -
  let ?subs = "[[''email'' \<mapsto> JStr ''a@x.co''], [''email'' \<mapsto> JStr ''b@x.co''],
                [''email'' \<mapsto> JStr ''c@x.co''], [''email'' \<mapsto> JStr ''d@x.co''],
                [''email'' \<mapsto> JStr ''e@x.co'']] :: jsobj list"
  let ?opts = "\<lparr> rateLimit = Some 10, onProgress = None \<rparr> :: (nat \<times> nat) bulk_options"
  have ne: "?subs \<noteq> []" by simp
  have rl: "rateLimit ?opts = Some 10" by simp
  have pos: "(0::rat) < 10" by simp
  from sendBulkEmails_pauses [OF wellTyped_exampleTemplate ne rl pos, of exampleClient "(0, 0)"]
  obtain results trace w' where
    run: "sendBulkEmails exampleClient ?subs exampleTemplate ?opts (0, 0) = Inr (results, trace, w')"
    and count: "length (filter isPaused trace) = length ?subs - 1"
    and len: "length trace = 2 * length ?subs - 1"
    and paused: "\<forall>i. i + 1 < length ?subs \<longrightarrow> trace ! (2 * i + 1) = Paused (1000 / 10)"
    and final: "\<not> isPaused (last trace)"
    by blast
  have p: "trace ! 1 = Paused 100" "trace ! 3 = Paused 100" "trace ! 5 = Paused 100"
    "trace ! 7 = Paused 100"
    using paused [rule_format, of 0] paused [rule_format, of 1] paused [rule_format, of 2]
      paused [rule_format, of 3]
    by simp_all
  from count len have "length (filter isPaused trace) = 4" "length trace = 9" by simp_all
  with run p final show ?thesis by blast
qed

text \<open>
  Claim C1 does not hold of the code. The dispatcher renders the template with its own
  \<open>processTemplate\<close> and the subscriber alone as data: no token is computed and
  \<open>processTemplateForSubscriber\<close> is not called, so \<open>{confirmation_url}\<close> and
  \<open>{confirmation_token}\<close> are replaced by the empty string in the email that is sent. For
  one subscriber and a template that uses both placeholders, the text handed to
  \<open>sendEmail\<close> is \<open>Link:  token: \<close>, where the renderer of the template processor gives
  the link and the token.
\<close>

theorem sendBulkEmails_drops_confirmation:
  "(case sendBulkEmails exampleClient [[''email'' \<mapsto> JStr ''a@x.co'']] confirmTemplate
          \<lparr> rateLimit = Some 10, onProgress = None \<rparr> (0, 0) of
      Inl e \<Rightarrow> False
    | Inr (results, trace, w') \<Rightarrow>
        map (\<lambda>ev. case ev of Sent m \<Rightarrow> (m ''to'', m ''text'') | Paused ms \<Rightarrow> (None, None)) trace
          = [(Some (JStr ''a@x.co''), Some (JStr ''Link:  token: ''))])
   \<and> processTemplateForSubscriber confirmTemplate [''email'' \<mapsto> JStr ''a@x.co''] (JStr ''abc123'') ''text''
       = Some (JStr ''Link: https://e.co/c?t=abc123 token: abc123'')"
  by code_simp

text \<open>
  Claim C2 does not hold of the code. \<open>sendBulkEmails\<close> reads \<open>rateLimit\<close> from its options
  and nothing else: a callback \<open>onProgress\<close> is never invoked. With a callback that counts
  its calls, two subscribers leave the world with two calls of the provider and no call of
  the callback.
\<close>

theorem sendBulkEmails_never_calls_onProgress:
  "(case sendBulkEmails exampleClient
          [[''email'' \<mapsto> JStr ''a@x.co''], [''email'' \<mapsto> JStr ''c@x.co'']] exampleTemplate
          \<lparr> rateLimit = Some 10, onProgress = Some countProgress \<rparr> (0, 0) of
      Inl e \<Rightarrow> False
    | Inr (results, trace, w') \<Rightarrow> length results = 2 \<and> w' = (2, 0))"
  by code_simp

text \<open>In general, the run does not depend on the callback at all.\<close>

lemma sendBulkEmails_ignores_onProgress:
  "sendBulkEmails client subscribers emailTemplate (options\<lparr> onProgress := callback \<rparr>) w
     = sendBulkEmails client subscribers emailTemplate options w"
  by (simp add: sendBulkEmails_def)

section \<open>Properties of the result logger\<close>

lemma length_filter_split:
  "length (filter P xs) + length (filter (\<lambda>x. \<not> P x) xs) = length xs"
  by (induction xs) auto

text \<open>
  Rounding to the nearest double is off by at most half a unit in the last place: a
  \<open>2 ^ 53\<close>-th of the number, or \<open>2 ^ -1075\<close> among the subnormal numbers.
\<close>

lemma roundHalfEven_bound: "\<bar>of_int (roundHalfEven y) - y\<bar> \<le> 1 / 2"
proof -
  have "of_int \<lfloor>y\<rfloor> \<le> y" "y < of_int \<lfloor>y\<rfloor> + 1" by linarith+
  then show ?thesis
    unfolding roundHalfEven_def Let_def by (simp split: if_splits)
qed

lemma roundHalfEven_nonneg: "0 \<le> y \<Longrightarrow> 0 \<le> roundHalfEven y"
  unfolding roundHalfEven_def Let_def by (simp split: if_splits)

lemma bitlen_lower: "0 < p \<Longrightarrow> power_int 2 (bitlen p - 1) \<le> (of_int p :: rat)"
proof -
  assume p: "0 < p"
  then have "2 ^ nat (bitlen p - 1) \<le> p" using bitlen_bounds by blast
  then have "(of_int (2 ^ nat (bitlen p - 1)) :: rat) \<le> of_int p" by (simp only: of_int_le_iff)
  moreover have "1 \<le> bitlen p" using p by (auto simp: bitlen_alt_def)
  ultimately show ?thesis by (simp add: power_int_def)
qed

lemma bitlen_upper: "0 < q \<Longrightarrow> (of_int q :: rat) \<le> power_int 2 (bitlen q)"
proof -
  assume q: "0 < q"
  then have "q < 2 ^ nat (bitlen q)" using bitlen_bounds by blast
  then have "(of_int q :: rat) < of_int (2 ^ nat (bitlen q))" by (simp only: of_int_less_iff)
  moreover have "0 \<le> bitlen q" by (rule bitlen_nonneg)
  ultimately show ?thesis by (simp add: power_int_def)
qed

lemma doubleExponent_lower:
  assumes "0 < x"
  shows "2 ^ 52 \<le> x / power_int 2 (doubleExponent x) \<or> doubleExponent x = - 1074"
proof -
  obtain p q where pq: "quotient_of x = (p, q)" by (cases "quotient_of x")
  then have q: "0 < q" by (rule quotient_of_denom_pos)
  have x: "x = of_int p / of_int q" using pq by (rule quotient_of_div)
  have p: "0 < p" using assms q unfolding x by (simp add: zero_less_divide_iff)
  let ?lo = "bitlen p - bitlen q - 53"
  have "power_int 2 (bitlen p - 1) / power_int 2 (bitlen q) \<le> (of_int p :: rat) / of_int q"
    using bitlen_lower [OF p] bitlen_upper [OF q] p q
    by (intro frac_le) simp_all
  then have "power_int 2 (bitlen p - 1 - bitlen q) \<le> x"
    unfolding x by (simp add: power_int_diff)
  then have "power_int 2 (bitlen p - 1 - bitlen q) / power_int 2 ?lo \<le> x / power_int 2 ?lo"
    by (simp add: divide_right_mono)
  moreover have "power_int (2::rat) (bitlen p - 1 - bitlen q) / power_int 2 ?lo = power_int 2 52"
    by (simp add: power_int_diff [symmetric])
  ultimately have a: "2 ^ 52 \<le> x / power_int 2 ?lo" by simp
  let ?ex = "if 2 ^ 53 \<le> x / power_int 2 ?lo then ?lo + 1 else ?lo"
  have b: "2 ^ 52 \<le> x / power_int 2 ?ex"
  proof (cases "2 ^ 53 \<le> x / power_int 2 ?lo")
    case True
    have "power_int (2::rat) (?lo + 1) = power_int 2 ?lo * 2"
      by (rule power_int_add_1) simp
    then have "x / power_int 2 (?lo + 1) = x / power_int 2 ?lo / 2"
      by (simp only: divide_divide_eq_left)
    moreover have "2 ^ 52 \<le> x / power_int 2 ?lo / 2"
      using True by simp
    ultimately have "2 ^ 52 \<le> x / power_int 2 (?lo + 1)"
      by (simp only:)
    then show ?thesis using True by (simp only: if_True)
  next
    case False
    then show ?thesis using a by simp
  qed
  have "doubleExponent x = max ?ex (- 1074)"
    by (simp add: doubleExponent_def pq Let_def)
  then show ?thesis using b by (auto simp: max_def)
qed

lemma roundPositive_error:
  assumes "0 < x"
  shows "\<bar>roundPositive x - x\<bar> \<le> x / 2 ^ 53 + 1 / 2 ^ 1075"
proof -
  let ?P = "power_int 2 (doubleExponent x) :: rat"
  let ?m = "of_int (roundHalfEven (x / ?P)) :: rat"
  have P: "0 < ?P" by simp
  have "\<bar>?m - x / ?P\<bar> \<le> 1 / 2" by (rule roundHalfEven_bound)
  then have "\<bar>?m - x / ?P\<bar> * ?P \<le> 1 / 2 * ?P"
    using P by (simp only: mult_le_cancel_right_pos)
  moreover have "\<bar>?m - x / ?P\<bar> * ?P = \<bar>?m * ?P - x\<bar>"
  proof -
    have "\<bar>?m - x / ?P\<bar> * ?P = \<bar>(?m - x / ?P) * ?P\<bar>"
      using P by (simp add: abs_mult)
    also have "(?m - x / ?P) * ?P = ?m * ?P - x"
      using P by (simp add: field_simps)
    finally show ?thesis .
  qed
  ultimately have e: "\<bar>roundPositive x - x\<bar> \<le> ?P / 2"
    by (simp add: roundPositive_def)
  from doubleExponent_lower [OF assms] show ?thesis
  proof
    assume "2 ^ 52 \<le> x / ?P"
    then have "2 ^ 52 * ?P \<le> x" using P by (simp add: pos_le_divide_eq)
    then have "?P / 2 \<le> x / 2 ^ 53" by simp
    with e show ?thesis by simp
  next
    assume "doubleExponent x = - 1074"
    then have "?P / 2 = 1 / 2 ^ 1075"
      by (simp add: power_int_minus field_simps)
    with e assms show ?thesis by simp
  qed
qed

lemma subnormal_small: "(1::rat) / 2 ^ 1075 \<le> 1 / 10 ^ 20"
proof -
  have "(10::rat) ^ 20 \<le> 2 ^ 70" by simp
  also have "(2::rat) ^ 70 \<le> 2 ^ 1075" by (rule power_increasing) simp_all
  finally show ?thesis by (intro frac_le) simp_all
qed

lemma roundDouble_error:
  assumes "0 \<le> x"
  shows "\<bar>roundDouble x - x\<bar> \<le> x / 2 ^ 53 + 1 / 10 ^ 20"
proof (cases "x = 0")
  case True
  then show ?thesis by (simp add: roundDouble_def)
next
  case False
  then have x: "0 < x" using assms by simp
  then have "roundDouble x = roundPositive x" by (simp add: roundDouble_def)
  then show ?thesis
    using roundPositive_error [OF x] subnormal_small by linarith
qed

lemma roundDouble_nonneg:
  assumes "0 \<le> x"
  shows "0 \<le> roundDouble x"
proof (cases "x = 0")
  case True
  then show ?thesis by (simp add: roundDouble_def)
next
  case False
  then have x: "0 < x" using assms by simp
  have "0 \<le> x / power_int 2 (doubleExponent x)" using x by simp
  then have "0 \<le> roundHalfEven (x / power_int 2 (doubleExponent x))"
    by (rule roundHalfEven_nonneg)
  then show ?thesis
    using x by (simp add: roundDouble_def roundPositive_def)
qed


lemma chain_arith:
  fixes r q a b :: rat
  assumes "0 \<le> r" and "r \<le> 1"
    and "\<bar>q - r\<bar> \<le> r / 2 ^ 53 + 1 / 10 ^ 20"
    and "\<bar>a - q * 100\<bar> \<le> q * 100 / 2 ^ 53 + 1 / 10 ^ 20"
    and "\<bar>b - a * 100\<bar> \<le> a * 100 / 2 ^ 53 + 1 / 10 ^ 20"
  shows "\<bar>b - r * 100 * 100\<bar> \<le> 4 / 10 ^ 12"
proof -
  have "\<bar>q - r\<bar> \<le> r / 9007199254740992 + 1 / 100000000000000000000"
    "\<bar>a - q * 100\<bar> \<le> q * 100 / 9007199254740992 + 1 / 100000000000000000000"
    "\<bar>b - a * 100\<bar> \<le> a * 100 / 9007199254740992 + 1 / 100000000000000000000"
    using assms(3-5) by simp_all
  then have "\<bar>b - r * 100 * 100\<bar> \<le> 4 / 1000000000000"
    using assms(1,2) by linarith
  then show ?thesis by simp
qed

lemma rate_chain:
  fixes s t :: int
  assumes "0 \<le> s" and "s \<le> t" and "0 < t"
  shows "\<bar>fmul (fmul (fdiv (of_int s) (of_int t)) 100) 100 - of_int s / of_int t * 100 * 100\<bar>
           \<le> 4 / 10 ^ 12"
    and "0 \<le> fmul (fmul (fdiv (of_int s) (of_int t)) 100) 100"
    and "fmul (fmul (fdiv (of_int s) (of_int t)) 100) 100 \<le> 10001"
proof -
  let ?r = "of_int s / of_int t :: rat"
  let ?q = "roundDouble ?r"
  let ?a = "roundDouble (?q * 100)"
  let ?b = "roundDouble (?a * 100)"
  have r0: "0 \<le> ?r" using assms by simp
  have r1: "?r \<le> 1" using assms by (simp add: divide_le_eq_1)
  have q0: "0 \<le> ?q" using r0 by (rule roundDouble_nonneg)
  have qe: "\<bar>?q - ?r\<bar> \<le> ?r / 2 ^ 53 + 1 / 10 ^ 20" using r0 by (rule roundDouble_error)
  have q100: "0 \<le> ?q * 100" using q0 by simp
  have a0: "0 \<le> ?a" using q100 by (rule roundDouble_nonneg)
  have ae: "\<bar>?a - ?q * 100\<bar> \<le> ?q * 100 / 2 ^ 53 + 1 / 10 ^ 20" using q100 by (rule roundDouble_error)
  have a100: "0 \<le> ?a * 100" using a0 by simp
  have be: "\<bar>?b - ?a * 100\<bar> \<le> ?a * 100 / 2 ^ 53 + 1 / 10 ^ 20" using a100 by (rule roundDouble_error)
  have b: "fmul (fmul (fdiv (of_int s) (of_int t)) 100) 100 = ?b"
    by (simp add: fmul_def fdiv_def)
  show "0 \<le> fmul (fmul (fdiv (of_int s) (of_int t)) 100) 100"
    unfolding b using a100 by (rule roundDouble_nonneg)
  have e: "\<bar>?b - ?r * 100 * 100\<bar> \<le> 4 / 10 ^ 12"
    using r0 r1 qe ae be by (rule chain_arith)
  then show "\<bar>fmul (fmul (fdiv (of_int s) (of_int t)) 100) 100 - of_int s / of_int t * 100 * 100\<bar>
           \<le> 4 / 10 ^ 12"
    unfolding b .
  show "fmul (fmul (fdiv (of_int s) (of_int t)) 100) 100 \<le> 10001"
  proof -
    have "\<bar>?b - ?r * 100 * 100\<bar> \<le> 1"
      using e by (rule order_trans) simp
    then show ?thesis
      unfolding b using r1 by linarith
  qed
qed


lemma js_round_bounds: "of_int (js_round x) \<le> x + 1 / 2 \<and> x + 1 / 2 < of_int (js_round x) + 1"
  unfolding js_round_def by linarith

lemma rate_arith:
  fixes r b rate :: rat and k :: int
  assumes "0 \<le> r" and "r \<le> 1"
    and "\<bar>b - r * 100 * 100\<bar> \<le> 4 / 10 ^ 12"
    and "of_int k \<le> b + 1 / 2" and "b + 1 / 2 < of_int k + 1"
    and "\<bar>rate - of_int k / 100\<bar> \<le> of_int k / 100 / 2 ^ 53 + 1 / 10 ^ 20"
  shows "\<bar>of_int k - r * 100 * 100\<bar> \<le> 1 / 2 + 1 / 10 ^ 11"
    and "\<bar>rate - r * 100\<bar> \<le> 1 / 200 + 1 / 10 ^ 13"
proof -
  have b: "\<bar>b - r * 100 * 100\<bar> \<le> 4 / 1000000000000"
    using assms(3) by simp
  have e: "\<bar>rate - of_int k / 100\<bar> \<le> of_int k / 100 / 9007199254740992 + 1 / 100000000000000000000"
    using assms(6) by simp
  have "\<bar>of_int k - r * 100 * 100\<bar> \<le> 1 / 2 + 1 / 100000000000"
    using b assms(1,2,4,5) by linarith
  then show "\<bar>of_int k - r * 100 * 100\<bar> \<le> 1 / 2 + 1 / 10 ^ 11" by simp
  have "\<bar>rate - r * 100\<bar> \<le> 1 / 200 + 1 / 10000000000000"
    using b e assms(1,2,4,5) by linarith
  then show "\<bar>rate - r * 100\<bar> \<le> 1 / 200 + 1 / 10 ^ 13" by simp
qed

lemma roundDouble_100: "roundDouble 100 = 100"
  by code_simp

text \<open>
  Claim C8, as the code has it. For every list of log entries, \<open>total\<close> is the number of
  entries, \<open>successful\<close> the number of entries whose status is \<open>success\<close>, \<open>failed\<close> is
  \<open>total - successful\<close>, and \<open>successRate\<close> is \<open>0\<close> for the empty log and otherwise
  \<open>successful / total * 100\<close> rounded to hundredths in double arithmetic: it is the double
  nearest to \<open>k / 100\<close> for a whole number \<open>k\<close> that differs from
  \<open>successful / total * 10000\<close> by at most \<open>1/2 + 10^-11\<close>, so it differs from
  \<open>successful / total * 100\<close> by at most \<open>0.005 + 10^-13\<close>. Which way a quotient that lies
  within \<open>10^-11\<close> of a half goes is decided by the rounding errors of the three operations
  before \<open>Math.round\<close>.
\<close>

theorem getLogStats_rounds_rate:
  "total (getLogStats logData) = int (length logData)
   \<and> successful (getLogStats logData)
       = int (length (filter (\<lambda>entry. js_get entry ''status'' = JStr ''success'') logData))
   \<and> failed (getLogStats logData) = total (getLogStats logData) - successful (getLogStats logData)
   \<and> (logData = [] \<longrightarrow> successRate (getLogStats logData) = 0)
   \<and> (logData \<noteq> [] \<longrightarrow>
        (\<exists>k::int. successRate (getLogStats logData) = roundDouble (of_int k / 100)
           \<and> \<bar>of_int k - of_int (successful (getLogStats logData))
                            / of_int (total (getLogStats logData)) * 100 * 100\<bar>
               \<le> (1 / 2 + 1 / 10 ^ 11 :: rat))
        \<and> \<bar>successRate (getLogStats logData)
             - of_int (successful (getLogStats logData)) / of_int (total (getLogStats logData)) * 100\<bar>
            \<le> 1 / 200 + 1 / 10 ^ 13)"
proof -
  let ?s = "int (length (filter (\<lambda>entry. js_get entry ''status'' = JStr ''success'') logData))"
  let ?t = "int (length logData)"
  let ?r = "of_int ?s / of_int ?t :: rat"
  let ?b = "fmul (fmul (fdiv (of_int ?s) (of_int ?t)) 100) 100"
  let ?k = "js_round ?b"
  have counts: "total (getLogStats logData) = ?t" "successful (getLogStats logData) = ?s"
    "failed (getLogStats logData) = ?t - ?s"
    by (simp_all add: getLogStats_def Let_def)
  have empty: "logData = [] \<longrightarrow> successRate (getLogStats logData) = 0"
    by (simp add: getLogStats_def Let_def)
  have nonempty: "(\<exists>k::int. successRate (getLogStats logData) = roundDouble (of_int k / 100)
           \<and> \<bar>of_int k - ?r * 100 * 100\<bar> \<le> (1 / 2 + 1 / 10 ^ 11 :: rat))
        \<and> \<bar>successRate (getLogStats logData) - ?r * 100\<bar> \<le> 1 / 200 + 1 / 10 ^ 13"
    if ne: "logData \<noteq> []"
  proof -
    have t: "0 < ?t" using ne by simp
    have s0: "0 \<le> ?s" by simp
    have st: "?s \<le> ?t" by simp
    have r0: "0 \<le> ?r" by simp
    have r1: "?r \<le> 1" using t st by (simp add: divide_le_eq_1)
    have rate: "successRate (getLogStats logData) = roundDouble (of_int ?k / 100)"
      using t by (simp add: getLogStats_def Let_def fdiv_def)
    note c = rate_chain [OF s0 st t]
    have k0: "0 \<le> ?k"
      using c(2) js_round_bounds [of ?b] by linarith
    then have "0 \<le> (of_int ?k :: rat) / 100" by simp
    then have e: "\<bar>roundDouble (of_int ?k / 100) - of_int ?k / 100\<bar>
        \<le> of_int ?k / 100 / 2 ^ 53 + 1 / 10 ^ 20"
      by (rule roundDouble_error)
    note a = rate_arith [OF r0 r1 c(1) conjunct1 [OF js_round_bounds] conjunct2 [OF js_round_bounds] e]
    show ?thesis
      using rate a by auto
  qed
  show ?thesis
    unfolding counts using empty nonempty by blast
qed

theorem getLogStats_rounds_rate_witness:
  "successRate (getLogStats [[''status'' \<mapsto> JStr ''success''], [''status'' \<mapsto> JStr ''failed''],
                             [''status'' \<mapsto> JStr ''failed'']]) = roundDouble (3333 / 100)
   \<and> \<bar>successRate (getLogStats [[''status'' \<mapsto> JStr ''success''], [''status'' \<mapsto> JStr ''failed''],
                             [''status'' \<mapsto> JStr ''failed'']]) - 100 / 3\<bar> \<le> 1 / 200 + 1 / 10 ^ 13
   \<and> successRate (getLogStats (replicate 5 [''status'' \<mapsto> JStr ''success''])) = 100
   \<and> successRate (getLogStats []) = 0"
proof -
  let ?log = "[[''status'' \<mapsto> JStr ''success''], [''status'' \<mapsto> JStr ''failed''],
               [''status'' \<mapsto> JStr ''failed'']] :: jsobj list"
  let ?five = "replicate 5 [''status'' \<mapsto> JStr ''success''] :: jsobj list"
  have ne: "?log \<noteq> []" "?five \<noteq> []" by simp_all
  have s: "successful (getLogStats ?log) = 1" and t: "total (getLogStats ?log) = 3"
    by (simp_all add: getLogStats_def Let_def js_get_def)
  have s5: "successful (getLogStats ?five) = 5" and t5: "total (getLogStats ?five) = 5"
    by (simp_all add: getLogStats_def Let_def js_get_def)
  from getLogStats_rounds_rate [of ?log] ne(1) obtain k :: int where
    k: "successRate (getLogStats ?log) = roundDouble (of_int k / 100)"
      "\<bar>of_int k - of_int (successful (getLogStats ?log))
            / of_int (total (getLogStats ?log)) * 100 * 100\<bar> \<le> (1 / 2 + 1 / 10 ^ 11 :: rat)"
    and d: "\<bar>successRate (getLogStats ?log)
             - of_int (successful (getLogStats ?log)) / of_int (total (getLogStats ?log)) * 100\<bar>
            \<le> 1 / 200 + 1 / 10 ^ 13"
    by blast
  from k(2) have "\<bar>(of_int k :: rat) - 10000 / 3\<bar> \<le> 1 / 2 + 1 / 100000000000"
    unfolding s t by simp
  then have "(3332 :: rat) < of_int k \<and> (of_int k :: rat) < 3334" by linarith
  then have "3332 < k \<and> k < 3334" by (simp only: of_int_less_iff [symmetric, where ?'a = rat] of_int_numeral)
  then have "k = 3333" by arith
  with k(1) have a: "successRate (getLogStats ?log) = roundDouble (3333 / 100)" by simp
  from d have b: "\<bar>successRate (getLogStats ?log) - 100 / 3\<bar> \<le> 1 / 200 + 1 / 10 ^ 13"
    unfolding s t by simp
  from getLogStats_rounds_rate [of ?five] ne(2) obtain j :: int where
    j: "successRate (getLogStats ?five) = roundDouble (of_int j / 100)"
      "\<bar>of_int j - of_int (successful (getLogStats ?five))
            / of_int (total (getLogStats ?five)) * 100 * 100\<bar> \<le> (1 / 2 + 1 / 10 ^ 11 :: rat)"
    by blast
  from j(2) have "\<bar>(of_int j :: rat) - 10000\<bar> \<le> 1 / 2 + 1 / 100000000000"
    unfolding s5 t5 by simp
  then have "(9999 :: rat) < of_int j \<and> (of_int j :: rat) < 10001" by linarith
  then have "9999 < j \<and> j < 10001" by (simp only: of_int_less_iff [symmetric, where ?'a = rat] of_int_numeral)
  then have "j = 10000" by arith
  with j(1) have c: "successRate (getLogStats ?five) = 100" by (simp add: roundDouble_100)
  have e: "successRate (getLogStats []) = 0"
    using getLogStats_rounds_rate [of "[]"] by simp
  show ?thesis
    using a b c e by simp
qed

text \<open>
  The rate of claim C8 as the specification words it, \<open>successful / total * 100\<close> with no
  rounding to hundredths, is not what the code returns: one success among three entries
  gives \<open>33.33\<close>, which is neither \<open>100 / 3\<close> nor the double \<open>1 / 3 * 100\<close>.
\<close>

theorem getLogStats_unrounded_counterexample:
  "successRate (getLogStats [[''status'' \<mapsto> JStr ''success''], [''status'' \<mapsto> JStr ''failed''],
                             [''status'' \<mapsto> JStr ''failed'']])
     \<noteq> of_int (successful (getLogStats [[''status'' \<mapsto> JStr ''success''],
                 [''status'' \<mapsto> JStr ''failed''], [''status'' \<mapsto> JStr ''failed'']]))
       / of_int (total (getLogStats [[''status'' \<mapsto> JStr ''success''],
                 [''status'' \<mapsto> JStr ''failed''], [''status'' \<mapsto> JStr ''failed'']])) * 100
   \<and> successRate (getLogStats [[''status'' \<mapsto> JStr ''success''], [''status'' \<mapsto> JStr ''failed''],
                             [''status'' \<mapsto> JStr ''failed'']])
     \<noteq> fmul (fdiv (of_int (successful (getLogStats [[''status'' \<mapsto> JStr ''success''],
                 [''status'' \<mapsto> JStr ''failed''], [''status'' \<mapsto> JStr ''failed'']])))
       (of_int (total (getLogStats [[''status'' \<mapsto> JStr ''success''],
                 [''status'' \<mapsto> JStr ''failed''], [''status'' \<mapsto> JStr ''failed'']])))) 100"
  by code_simp

text \<open>
  A quotient on a tie: \<open>23 / 160 * 10000\<close> is \<open>1437.5\<close>, the doubles give
  \<open>1437.4999999999998\<close>, and the rate of 23 successes among 160 entries is \<open>14.37\<close>.
\<close>

lemma getLogStats_tie_test:
  "fmul (fmul (fdiv 23 160) 100) 100 = 6322191859711999 / 4398046511104"
  "js_round (fmul (fmul (fdiv 23 160) 100) 100) = 1437"
  "successRate (getLogStats (replicate 23 [''status'' \<mapsto> JStr ''success''] @ replicate 137 Map.empty))
     = roundDouble (1437 / 100)"
  by code_simp+

text \<open>
  Claim C10. For every list of log entries, whatever their status fields hold,
  \<open>successful + failed = total\<close>, and \<open>failed\<close> counts exactly the entries whose status
  is not the string \<open>success\<close> (a missing status included).
\<close>

theorem getLogStats_partition:
  "successful (getLogStats logData) + failed (getLogStats logData) = total (getLogStats logData)
   \<and> failed (getLogStats logData)
       = int (length (filter (\<lambda>entry. js_get entry ''status'' \<noteq> JStr ''success'') logData))"
proof -
  have "int (length (filter (\<lambda>entry. js_get entry ''status'' = JStr ''success'') logData))
        + int (length (filter (\<lambda>entry. js_get entry ''status'' \<noteq> JStr ''success'') logData))
        = int (length logData)"
    using length_filter_split [of "\<lambda>entry. js_get entry ''status'' = JStr ''success''" logData]
    by linarith
  then show ?thesis
    by (simp add: getLogStats_def Let_def)
qed

end
